theory Spec2Isabelle
  imports
    Main
    "HOL-Library.Word"
    "HOL-Library.AList"
    "HOL-Library.Log_Nat"
    "HOL-Library.Signed_Division"
begin

unbundle bit_operations_syntax

section \<open>certinject: the CryptoAPI store manager (cryptoapi\_windows.go)\<close>

text \<open>
  The Go file injects a certificate into a Windows registry certificate store and sweeps
  expired injected certificates from it.  The registry, the clock and the logger are made
  explicit as a \<open>world\<close> that every operation takes and returns.  Go's \<open>error\<close> values
  are modelled by their message (\<open>err.Error()\<close>), since the code only ever formats them
  with \<open>%s\<close>.
\<close>

type_synonym byte = "8 word"
type_synonym error = string

subsection \<open>Formatting (package fmt), restricted to the verb the file uses\<close>

definition backslash :: string where
  "backslash = [CHR 0x5C]"

fun extra_args :: "string list \<Rightarrow> string" where
  "extra_args [] = []"
| "extra_args [a] = ''string='' @ a"
| "extra_args (a # b # args) = ''string='' @ a @ '', '' @ extra_args (b # args)"

text \<open>
  \<open>fmt.Sprintf\<close> for format strings whose only verb is \<open>%s\<close> and for string operands: the
  next operand replaces each \<open>%s\<close>; a \<open>%s\<close> without operand prints \<open>%!s(MISSING)\<close>, and
  operands left over are listed after the text as \<open>%!(EXTRA string=...)\<close>.
\<close>

fun Sprintf :: "string \<Rightarrow> string list \<Rightarrow> string" where
  "Sprintf [] args = (if args = [] then [] else ''%!(EXTRA '' @ extra_args args @ '')'')"
| "Sprintf [c] args = c # Sprintf [] args"
| "Sprintf (c # d # fmt) args =
     (if c = CHR ''%'' \<and> d = CHR ''s'' then
        (case args of
           [] \<Rightarrow> ''%!s(MISSING)'' @ Sprintf fmt []
         | a # rest \<Rightarrow> a @ Sprintf fmt rest)
      else c # Sprintf (d # fmt) args)"

subsection \<open>Store locations\<close>

datatype hive = CURRENT_USER | LOCAL_MACHINE

record Store =
  Base :: hive
  Physical :: string
  Logical :: string

text \<open>
  The command-line flags the file reads.  \<open>certExpirePeriod\<close> is declared in another file
  of the package; it is an integer number of seconds.
\<close>

record config =
  cryptoAPIFlagLogicalStoreName :: string
  cryptoAPIFlagPhysicalStoreName :: string
  certExpirePeriod :: int

definition cryptoAPIMagicName :: string where
  "cryptoAPIMagicName = ''Namecoin''"

definition cryptoAPIMagicValue :: "'a::len word" where
  "cryptoAPIMagicValue = 1"

definition cryptoAPIStores :: "(string \<times> Store) list" where
  "cryptoAPIStores =
     [(''current-user'',
        \<lparr>Base = CURRENT_USER,
         Physical = ''SOFTWARE'' @ backslash @ ''Microsoft'' @ backslash @ ''SystemCertificates'',
         Logical = ''%s'' @ backslash @ ''Certificates''\<rparr>),
      (''system'',
        \<lparr>Base = LOCAL_MACHINE,
         Physical = ''SOFTWARE'' @ backslash @ ''Microsoft'' @ backslash @ ''SystemCertificates'',
         Logical = ''%s'' @ backslash @ ''Certificates''\<rparr>),
      (''enterprise'',
        \<lparr>Base = LOCAL_MACHINE,
         Physical = ''SOFTWARE'' @ backslash @ ''Microsoft'' @ backslash @ ''EnterpriseCertificates'',
         Logical = ''%s'' @ backslash @ ''Certificates''\<rparr>),
      (''group-policy'',
        \<lparr>Base = LOCAL_MACHINE,
         Physical = ''SOFTWARE'' @ backslash @ ''Policies'' @ backslash @ ''Microsoft''
                      @ backslash @ ''SystemCertificates'',
         Logical = ''%s'' @ backslash @ ''Certificates''\<rparr>)]"

definition Key :: "config \<Rightarrow> Store \<Rightarrow> string" where
  "Key cfg s =
     Sprintf (''%s'' @ backslash @ Logical s) [Physical s, cryptoAPIFlagLogicalStoreName cfg]"

definition cryptoAPINameToStore :: "string \<Rightarrow> error + Store" where
  "cryptoAPINameToStore name =
     (case map_of cryptoAPIStores name of
        None \<Rightarrow>
          Inl ''invalid choice for physical store, consider: current-user, system, enterprise, group-policy''
      | Some store \<Rightarrow> Inr store)"

subsection \<open>The registry, the clock and the log\<close>

datatype regvalue =
    REG_DWORD "32 word"
  | REG_QWORD "64 word"
  | REG_BINARY "byte list"
  | REG_SZ string

text \<open>
  A certificate key holds named values and the last-write time the registry keeps for it,
  in nanoseconds since the Unix epoch (what \<open>KeyInfo.ModTime\<close> returns).  A certificate
  store is the list of its sub-keys in the order \<open>ReadSubKeyNames\<close> enumerates them.
\<close>

record certkey =
  vals :: "string \<rightharpoonup> regvalue"
  modTime :: int

type_synonym certstore = "(string \<times> certkey) list"

datatype handle =
    HiveKey hive
  | StoreKey hive string
  | CertKey hive string string

datatype regop =
    OpOpenKey handle string
  | OpCreateKey handle string
  | OpDeleteKey handle string
  | OpReadSubKeyNames handle
  | OpGetIntegerValue handle string
  | OpStat handle
  | OpDeleteValue handle string
  | OpSetDWordValue handle string "32 word"
  | OpSetBinaryValue handle string "byte list"

text \<open>
  \<open>faults\<close> names the registry calls that the operating system refuses (access denied,
  and so on) together with the error each returns; \<open>trace\<close> records every registry call
  in the order it is made, whether it succeeds or not; \<open>logs\<close> holds the lines written
  with \<open>log.Errorf\<close>; \<open>now\<close> is the wall clock in nanoseconds since the Unix epoch.
\<close>

record world =
  registry :: "hive \<times> string \<rightharpoonup> certstore"
  faults :: "regop \<rightharpoonup> error"
  now :: int
  logs :: "string list"
  trace :: "regop list"

definition ERROR_FILE_NOT_FOUND :: error where
  "ERROR_FILE_NOT_FOUND = ''The system cannot find the file specified.''"

definition ERROR_INVALID_HANDLE :: error where
  "ERROR_INVALID_HANDLE = ''The handle is invalid.''"

definition ErrNotExist :: error where
  "ErrNotExist = ERROR_FILE_NOT_FOUND"

definition ErrUnexpectedType :: error where
  "ErrUnexpectedType = ''unexpected key value type''"

definition Errorf :: "string \<Rightarrow> string list \<Rightarrow> world \<Rightarrow> world" where
  "Errorf fmt args w = w\<lparr>logs := logs w @ [Sprintf fmt args]\<rparr>"

definition called :: "regop \<Rightarrow> world \<Rightarrow> world" where
  "called op w = w\<lparr>trace := trace w @ [op]\<rparr>"

definition lookup_key :: "world \<Rightarrow> hive \<Rightarrow> string \<Rightarrow> string \<Rightarrow> certkey option" where
  "lookup_key w h p n =
     (case registry w (h, p) of None \<Rightarrow> None | Some st \<Rightarrow> map_of st n)"

definition store_key :: "hive \<Rightarrow> string \<Rightarrow> string \<Rightarrow> certkey \<Rightarrow> world \<Rightarrow> world" where
  "store_key h p n e w =
     (case registry w (h, p) of
        None \<Rightarrow> w
      | Some st \<Rightarrow> w\<lparr>registry := (registry w)((h, p) \<mapsto> AList.update n e st)\<rparr>)"

definition OpenKey :: "handle \<Rightarrow> string \<Rightarrow> world \<Rightarrow> (error + handle) \<times> world" where
  "OpenKey k path w =
     (let w' = called (OpOpenKey k path) w in
      case faults w (OpOpenKey k path) of
        Some err \<Rightarrow> (Inl err, w')
      | None \<Rightarrow>
          (case k of
             HiveKey h \<Rightarrow>
               (case registry w (h, path) of
                  None \<Rightarrow> (Inl ERROR_FILE_NOT_FOUND, w')
                | Some st \<Rightarrow> (Inr (StoreKey h path), w'))
           | StoreKey h p \<Rightarrow>
               (case lookup_key w h p path of
                  None \<Rightarrow> (Inl ERROR_FILE_NOT_FOUND, w')
                | Some e \<Rightarrow> (Inr (CertKey h p path), w'))
           | CertKey h p n \<Rightarrow> (Inl ERROR_FILE_NOT_FOUND, w')))"

text \<open>The second result of \<open>CreateKey\<close> is \<open>openedExisting\<close>.\<close>

definition CreateKey :: "handle \<Rightarrow> string \<Rightarrow> world \<Rightarrow> (error + handle \<times> bool) \<times> world" where
  "CreateKey k path w =
     (let w' = called (OpCreateKey k path) w in
      case faults w (OpCreateKey k path) of
        Some err \<Rightarrow> (Inl err, w')
      | None \<Rightarrow>
          (case k of
             StoreKey h p \<Rightarrow>
               (case registry w (h, p) of
                  None \<Rightarrow> (Inl ERROR_INVALID_HANDLE, w')
                | Some st \<Rightarrow>
                    (case map_of st path of
                       Some e \<Rightarrow> (Inr (CertKey h p path, True), w')
                     | None \<Rightarrow>
                         (Inr (CertKey h p path, False),
                          store_key h p path \<lparr>vals = Map.empty, modTime = now w\<rparr> w')))
           | _ \<Rightarrow> (Inl ERROR_INVALID_HANDLE, w')))"

definition DeleteKey :: "handle \<Rightarrow> string \<Rightarrow> world \<Rightarrow> (error + unit) \<times> world" where
  "DeleteKey k path w =
     (let w' = called (OpDeleteKey k path) w in
      case faults w (OpDeleteKey k path) of
        Some err \<Rightarrow> (Inl err, w')
      | None \<Rightarrow>
          (case k of
             StoreKey h p \<Rightarrow>
               (case registry w (h, p) of
                  None \<Rightarrow> (Inl ERROR_INVALID_HANDLE, w')
                | Some st \<Rightarrow>
                    (case map_of st path of
                       None \<Rightarrow> (Inl ERROR_FILE_NOT_FOUND, w')
                     | Some e \<Rightarrow>
                         (Inr (), w'\<lparr>registry := (registry w)((h, p) \<mapsto> AList.delete path st)\<rparr>)))
           | _ \<Rightarrow> (Inl ERROR_INVALID_HANDLE, w')))"

definition ReadSubKeyNames :: "handle \<Rightarrow> world \<Rightarrow> (error + string list) \<times> world" where
  "ReadSubKeyNames k w =
     (let w' = called (OpReadSubKeyNames k) w in
      case faults w (OpReadSubKeyNames k) of
        Some err \<Rightarrow> (Inl err, w')
      | None \<Rightarrow>
          (case k of
             StoreKey h p \<Rightarrow>
               (case registry w (h, p) of
                  None \<Rightarrow> (Inl ERROR_INVALID_HANDLE, w')
                | Some st \<Rightarrow> (Inr (map fst st), w'))
           | _ \<Rightarrow> (Inl ERROR_INVALID_HANDLE, w')))"

text \<open>
  \<open>GetIntegerValue\<close> returns the value of a DWORD or QWORD as an unsigned 64-bit integer,
  \<open>ErrNotExist\<close> when the value is absent and \<open>ErrUnexpectedType\<close> for any other type.
  (Its second result, the value type, is never read by the file and is left out.)
\<close>

definition GetIntegerValue :: "handle \<Rightarrow> string \<Rightarrow> world \<Rightarrow> (error + 64 word) \<times> world" where
  "GetIntegerValue k name w =
     (let w' = called (OpGetIntegerValue k name) w in
      case faults w (OpGetIntegerValue k name) of
        Some err \<Rightarrow> (Inl err, w')
      | None \<Rightarrow>
          (case k of
             CertKey h p n \<Rightarrow>
               (case lookup_key w h p n of
                  None \<Rightarrow> (Inl ERROR_INVALID_HANDLE, w')
                | Some e \<Rightarrow>
                    (case vals e name of
                       None \<Rightarrow> (Inl ErrNotExist, w')
                     | Some (REG_DWORD v) \<Rightarrow> (Inr (ucast v), w')
                     | Some (REG_QWORD v) \<Rightarrow> (Inr v, w')
                     | Some _ \<Rightarrow> (Inl ErrUnexpectedType, w')))
           | _ \<Rightarrow> (Inl ERROR_INVALID_HANDLE, w')))"

text \<open>\<open>Stat\<close> followed by \<open>KeyInfo.ModTime\<close>: the key's last-write time.\<close>

definition Stat :: "handle \<Rightarrow> world \<Rightarrow> (error + int) \<times> world" where
  "Stat k w =
     (let w' = called (OpStat k) w in
      case faults w (OpStat k) of
        Some err \<Rightarrow> (Inl err, w')
      | None \<Rightarrow>
          (case k of
             CertKey h p n \<Rightarrow>
               (case lookup_key w h p n of
                  None \<Rightarrow> (Inl ERROR_INVALID_HANDLE, w')
                | Some e \<Rightarrow> (Inr (modTime e), w'))
           | _ \<Rightarrow> (Inl ERROR_INVALID_HANDLE, w')))"

definition DeleteValue :: "handle \<Rightarrow> string \<Rightarrow> world \<Rightarrow> (error + unit) \<times> world" where
  "DeleteValue k name w =
     (let w' = called (OpDeleteValue k name) w in
      case faults w (OpDeleteValue k name) of
        Some err \<Rightarrow> (Inl err, w')
      | None \<Rightarrow>
          (case k of
             CertKey h p n \<Rightarrow>
               (case lookup_key w h p n of
                  None \<Rightarrow> (Inl ERROR_INVALID_HANDLE, w')
                | Some e \<Rightarrow>
                    (case vals e name of
                       None \<Rightarrow> (Inl ERROR_FILE_NOT_FOUND, w')
                     | Some v \<Rightarrow>
                         (Inr (),
                          store_key h p n (e\<lparr>vals := (vals e)(name := None), modTime := now w\<rparr>) w')))
           | _ \<Rightarrow> (Inl ERROR_INVALID_HANDLE, w')))"

definition set_value :: "regop \<Rightarrow> handle \<Rightarrow> string \<Rightarrow> regvalue \<Rightarrow> world \<Rightarrow> (error + unit) \<times> world" where
  "set_value op k name v w =
     (let w' = called op w in
      case faults w op of
        Some err \<Rightarrow> (Inl err, w')
      | None \<Rightarrow>
          (case k of
             CertKey h p n \<Rightarrow>
               (case lookup_key w h p n of
                  None \<Rightarrow> (Inl ERROR_INVALID_HANDLE, w')
                | Some e \<Rightarrow>
                    (Inr (), store_key h p n (e\<lparr>vals := (vals e)(name \<mapsto> v), modTime := now w\<rparr>) w'))
           | _ \<Rightarrow> (Inl ERROR_INVALID_HANDLE, w')))"

definition SetDWordValue :: "handle \<Rightarrow> string \<Rightarrow> 32 word \<Rightarrow> world \<Rightarrow> (error + unit) \<times> world" where
  "SetDWordValue k name v w = set_value (OpSetDWordValue k name v) k name (REG_DWORD v) w"

definition SetBinaryValue :: "handle \<Rightarrow> string \<Rightarrow> byte list \<Rightarrow> world \<Rightarrow> (error + unit) \<times> world" where
  "SetBinaryValue k name bs w = set_value (OpSetBinaryValue k name bs) k name (REG_BINARY bs) w"

subsection \<open>The certificate registry blob (package certblob)\<close>

text \<open>A blob maps property identifiers to their data; the file only builds singletons.\<close>

type_synonym blob = "(32 word \<times> byte list) list"

definition le32 :: "32 word \<Rightarrow> byte list" where
  "le32 v = [ucast v, ucast (drop_bit 8 v), ucast (drop_bit 16 v), ucast (drop_bit 24 v)]"

definition from_le32 :: "byte list \<Rightarrow> 32 word" where
  "from_le32 bs =
     ucast (bs ! 0) OR push_bit 8 (ucast (bs ! 1)) OR push_bit 16 (ucast (bs ! 2))
       OR push_bit 24 (ucast (bs ! 3))"

definition EncodingOverflow :: error where
  "EncodingOverflow = ''EncodingOverflow''"

definition TruncatedHeader :: error where
  "TruncatedHeader = ''TruncatedHeader''"

definition TruncatedPayload :: error where
  "TruncatedPayload = ''TruncatedPayload''"

text \<open>
  Modelled from the spec: \<open>certblob.Blob.Marshal\<close>, which is not among the source files.
  Each record is a 12-byte header (tag, reserved = 1, payload length, each an unsigned
  little-endian 32-bit integer) followed by the payload; the records are concatenated;
  a payload longer than the unsigned 32-bit range fails with \<open>EncodingOverflow\<close>.
\<close>

fun Marshal :: "blob \<Rightarrow> error + byte list" where
  "Marshal [] = Inr []"
| "Marshal ((tag, payload) # rest) =
     (if length payload > 4294967295 then Inl EncodingOverflow
      else (case Marshal rest of
              Inl err \<Rightarrow> Inl err
            | Inr bs \<Rightarrow> Inr (le32 tag @ le32 1 @ le32 (of_nat (length payload)) @ payload @ bs)))"

text \<open>
  Modelled from the spec: the decoder of package \<open>certblob\<close>.  It reads a 12-byte header
  and then the payload until the input is exhausted, and fails with \<open>TruncatedHeader\<close> or
  \<open>TruncatedPayload\<close> when the input ends early.
\<close>

fun Unmarshal :: "byte list \<Rightarrow> error + blob" where
  "Unmarshal bs =
     (if bs = [] then Inr []
      else if length bs < 12 then Inl TruncatedHeader
      else if length bs - 12 < unat (from_le32 (take 4 (drop 8 bs))) then Inl TruncatedPayload
      else (case Unmarshal (drop (12 + unat (from_le32 (take 4 (drop 8 bs)))) bs) of
              Inl err \<Rightarrow> Inl err
            | Inr recs \<Rightarrow>
                Inr ((from_le32 (take 4 bs),
                      take (unat (from_le32 (take 4 (drop 8 bs)))) (drop 12 bs)) # recs)))"

declare Unmarshal.simps [simp del]

subsection \<open>Hexadecimal and upper case (packages encoding/hex and strings)\<close>

definition hextable :: string where
  "hextable = ''0123456789abcdef''"

fun EncodeToString :: "byte list \<Rightarrow> string" where
  "EncodeToString [] = []"
| "EncodeToString (v # src) =
     hextable ! unat (drop_bit 4 v) # hextable ! unat (v AND 0x0f) # EncodeToString src"

text \<open>\<open>strings.ToUpper\<close> on ASCII text: the letters a to z move down by 32.\<close>

definition upper_char :: "char \<Rightarrow> char" where
  "upper_char c =
     (if of_char (CHR ''a'') \<le> (of_char c :: nat) \<and> (of_char c :: nat) \<le> of_char (CHR ''z'')
      then char_of (of_char c - (32::nat)) else c)"

definition ToUpper :: "string \<Rightarrow> string" where
  "ToUpper s = map upper_char s"

subsection \<open>Durations and 64-bit floating point (packages time and math)\<close>

text \<open>
  A finite \<open>float64\<close> is the rational it denotes.  \<open>float64 x\<close> is the double nearest
  to \<open>x\<close>, ties to the even significand: \<open>x\<close> is scaled by the unit in the last place of
  its binade, so that the significand has 53 bits, and rounded to an integer.  All numbers
  that occur below lie between \<open>10\<^sup>-\<^sup>9\<close> and \<open>2\<^sup>6\<^sup>3\<close> in magnitude, far from the
  subnormal and overflow ranges, which are not modelled.
\<close>

definition round_half_even :: "rat \<Rightarrow> int" where
  "round_half_even y =
     (let f = \<lfloor>y\<rfloor>; r = y - of_int f in
      if r < 1 / 2 then f
      else if 1 / 2 < r then f + 1
      else if even f then f else f + 1)"

text \<open>\<open>binade x\<close> is the exponent \<open>e\<close> with \<open>2\<^sup>e \<le> x < 2\<^sup>e\<^sup>+\<^sup>1\<close>, for positive \<open>x\<close>.\<close>

definition binade :: "rat \<Rightarrow> int" where
  "binade x = (if 1 \<le> x then bitlen \<lfloor>x\<rfloor> - 1 else - bitlen (\<lceil>1 / x\<rceil> - 1))"

definition float64 :: "rat \<Rightarrow> rat" where
  "float64 x =
     (if x = 0 then 0
      else (let u = 2 powi (binade \<bar>x\<bar> - 52) in of_int (round_half_even (x / u)) * u))"

definition maxDuration :: int where
  "maxDuration = 2 ^ 63 - 1"

definition minDuration :: int where
  "minDuration = - (2 ^ 63)"

definition Second :: int where
  "Second = 1000000000"

text \<open>
  \<open>time.Since t\<close> is \<open>time.Now().Sub(t)\<close>: the difference in nanoseconds, saturated to the
  range of a \<open>Duration\<close> (a signed 64-bit integer).
\<close>

definition Since :: "world \<Rightarrow> int \<Rightarrow> int" where
  "Since w t =
     (let d = now w - t in
      if d > maxDuration then maxDuration
      else if d < minDuration then minDuration
      else d)"

text \<open>
  \<open>Duration.Seconds\<close>: \<open>sec := d / Second; nsec := d % Second;
  return float64(sec) + float64(nsec)/1e9\<close>, with Go's truncating division.
\<close>

definition Seconds :: "int \<Rightarrow> rat" where
  "Seconds d =
     (let sec = d sdiv Second; nsec = d smod Second in
      float64 (float64 (of_int sec) + float64 (float64 (of_int nsec) / 1000000000)))"

subsection \<open>Injection\<close>

text \<open>
  \<open>sha1_Sum\<close> stands for \<open>sha1.Sum\<close> of the Go standard library.  The function has no
  result; its effects are on the registry and on the log.
\<close>

definition injectCertCryptoAPI ::
  "(byte list \<Rightarrow> byte list) \<Rightarrow> config \<Rightarrow> byte list \<Rightarrow> world \<Rightarrow> unit \<times> world" where
  "injectCertCryptoAPI sha1_Sum cfg derBytes w =
     (case cryptoAPINameToStore (cryptoAPIFlagPhysicalStoreName cfg) of
        Inl err \<Rightarrow> ((), Errorf ''error: %s'' [err] w)
      | Inr store \<Rightarrow>
          (let registryBase = Base store;
               storeKey = Key cfg store;
               blob = [(0x20, derBytes)]
           in case Marshal blob of
                Inl err \<Rightarrow> ((), Errorf ''Couldn't marshal cert blob: %s'' [err] w)
              | Inr blobBytes \<Rightarrow>
                  (case OpenKey (HiveKey registryBase) storeKey w of
                     (Inl err, w1) \<Rightarrow> ((), Errorf ''Couldn't open cert store: %s'' [err] w1)
                   | (Inr certStoreKey, w1) \<Rightarrow>
                       (let fingerprint = sha1_Sum derBytes;
                            fingerprintHex = EncodeToString fingerprint;
                            fingerprintHexUpper = ToUpper fingerprintHex
                        in case CreateKey certStoreKey fingerprintHexUpper w1 of
                             (Inl err, w2) \<Rightarrow>
                               ((), Errorf ''Couldn't create registry key for certificate: %s'' [err] w2)
                           | (Inr (certKey, openedExisting), w2) \<Rightarrow>
                               (case DeleteValue certKey cryptoAPIMagicName w2 of
                                  (ignored, w3) \<Rightarrow>
                                    (case SetDWordValue certKey cryptoAPIMagicName cryptoAPIMagicValue w3 of
                                       (Inl err, w4) \<Rightarrow>
                                         ((), Errorf ''Couldn't set magic registry value for certificate: %s''
                                                [err] w4)
                                     | (Inr u, w4) \<Rightarrow>
                                         (case SetBinaryValue certKey ''Blob'' blobBytes w4 of
                                            (Inl err, w5) \<Rightarrow>
                                              ((), Errorf ''Couldn't set blob registry value for certificate: %s''
                                                     [err] w5)
                                          | (Inr u', w5) \<Rightarrow> ((), w5))))))))"

subsection \<open>The expiry sweep\<close>

definition checkCertExpiredCryptoAPI ::
  "config \<Rightarrow> handle \<Rightarrow> string \<Rightarrow> world \<Rightarrow> (error + bool) \<times> world" where
  "checkCertExpiredCryptoAPI cfg certStoreKey subKeyName w =
     (case OpenKey certStoreKey subKeyName w of
        (Inl err, w1) \<Rightarrow> (Inl (Sprintf ''Couldn't open cert registry key: %s'' [err]), w1)
      | (Inr certKey, w1) \<Rightarrow>
          (case GetIntegerValue certKey cryptoAPIMagicName w1 of
             (Inl err, w2) \<Rightarrow> (Inr False, w2)
           | (Inr isNamecoin, w2) \<Rightarrow>
               (if isNamecoin \<noteq> cryptoAPIMagicValue then (Inr False, w2)
                else (case Stat certKey w2 of
                        (Inl err, w3) \<Rightarrow>
                          (Inl (Sprintf ''Couldn't read metadata for cert registry key: %s'' [err]), w3)
                      | (Inr certKeyModTime, w3) \<Rightarrow>
                          (let expired =
                                 \<bar>Seconds (Since w3 certKeyModTime)\<bar>
                                   > float64 (of_int (certExpirePeriod cfg))
                           in (Inr expired, w3))))))"

text \<open>The body of the \<open>for\<close> loop over the enumerated sub-key names.\<close>

fun cleanCerts_loop :: "config \<Rightarrow> handle \<Rightarrow> string list \<Rightarrow> world \<Rightarrow> world" where
  "cleanCerts_loop cfg certStoreKey [] w = w"
| "cleanCerts_loop cfg certStoreKey (subKeyName # subKeys) w =
     (case checkCertExpiredCryptoAPI cfg certStoreKey subKeyName w of
        (Inl err, w1) \<Rightarrow> Errorf ''Couldn't check if cert is expired: %s'' [err] w1
      | (Inr expired, w1) \<Rightarrow>
          (if expired then
             (case DeleteKey certStoreKey subKeyName w1 of
                (Inl err, w2) \<Rightarrow>
                  cleanCerts_loop cfg certStoreKey subKeys
                    (Errorf ''Coudn't delete expired cert: %s'' [err] w2)
              | (Inr u, w2) \<Rightarrow> cleanCerts_loop cfg certStoreKey subKeys w2)
           else cleanCerts_loop cfg certStoreKey subKeys w1))"

definition cleanCertsCryptoAPI :: "config \<Rightarrow> world \<Rightarrow> unit \<times> world" where
  "cleanCertsCryptoAPI cfg w =
     (case cryptoAPINameToStore (cryptoAPIFlagPhysicalStoreName cfg) of
        Inl err \<Rightarrow> ((), Errorf ''error: %s'' [err] w)
      | Inr store \<Rightarrow>
          (let registryBase = Base store;
               storeKey = Key cfg store
           in case OpenKey (HiveKey registryBase) storeKey w of
                (Inl err, w1) \<Rightarrow> ((), Errorf ''Couldn't open cert store: %s'' [err] w1)
              | (Inr certStoreKey, w1) \<Rightarrow>
                  (case ReadSubKeyNames certStoreKey w1 of
                     (Inl err, w2) \<Rightarrow> ((), Errorf ''Couldn't list certs in cert store: %s'' [err] w2)
                   | (Inr subKeys, w2) \<Rightarrow> ((), cleanCerts_loop cfg certStoreKey subKeys w2))))"

subsection \<open>Notions used to state the properties\<close>

text \<open>
  The marker of a certificate key: the integer that \<open>GetIntegerValue\<close> reads from the
  value named \<open>cryptoAPIMagicName\<close>, if the value exists and is a DWORD or a QWORD.
\<close>

definition marker :: "certkey \<Rightarrow> 64 word option" where
  "marker e =
     (case vals e cryptoAPIMagicName of
        Some (REG_DWORD v) \<Rightarrow> Some (ucast v)
      | Some (REG_QWORD v) \<Rightarrow> Some v
      | _ \<Rightarrow> None)"

text \<open>
  The rendering the specification asks for, written independently of the code: two
  upper-case hexadecimal digits for each byte, the high nibble first.
\<close>

definition upper_hextable :: string where
  "upper_hextable = ''0123456789ABCDEF''"

fun upper_hex :: "byte list \<Rightarrow> string" where
  "upper_hex [] = []"
| "upper_hex (v # bs) =
     upper_hextable ! (unat v div 16) # upper_hextable ! (unat v mod 16) # upper_hex bs"

text \<open>The registry calls that a run adds to the trace.\<close>

definition calls :: "world \<Rightarrow> world \<Rightarrow> regop list" where
  "calls w w' = drop (length (trace w)) (trace w')"

subsection \<open>Example configurations and registries\<close>

definition example_cfg :: config where
  "example_cfg =
     \<lparr>cryptoAPIFlagLogicalStoreName = ''Root'',
      cryptoAPIFlagPhysicalStoreName = ''system'',
      certExpirePeriod = 1800\<rparr>"

definition root_path :: string where
  "root_path =
     ''SOFTWARE'' @ backslash @ ''Microsoft'' @ backslash @ ''SystemCertificates''
       @ backslash @ ''Root'' @ backslash @ ''Certificates''"

definition root_store :: handle where
  "root_store = StoreKey LOCAL_MACHINE root_path"

text \<open>The entry of \<open>cryptoAPIStores\<close> for the scope \<open>system\<close>.\<close>

definition system_scope :: Store where
  "system_scope =
     \<lparr>Base = LOCAL_MACHINE,
      Physical = ''SOFTWARE'' @ backslash @ ''Microsoft'' @ backslash @ ''SystemCertificates'',
      Logical = ''%s'' @ backslash @ ''Certificates''\<rparr>"

definition example_der :: "byte list" where
  "example_der = [0x30, 0x82, 0x01, 0x0a]"

definition example_name :: string where
  "example_name = ''3082010A00000000000000000000000000000000''"

text \<open>A key as an injection leaves it, last written at time \<open>t\<close>, and keys of other origin.\<close>

definition owned_key :: "int \<Rightarrow> certkey" where
  "owned_key t =
     \<lparr>vals = [cryptoAPIMagicName \<mapsto> REG_DWORD 1, ''Blob'' \<mapsto> REG_BINARY []], modTime = t\<rparr>"

definition foreign_key :: "int \<Rightarrow> certkey" where
  "foreign_key t = \<lparr>vals = [''Blob'' \<mapsto> REG_BINARY []], modTime = t\<rparr>"

definition other_marker_key :: "int \<Rightarrow> certkey" where
  "other_marker_key t =
     \<lparr>vals = [cryptoAPIMagicName \<mapsto> REG_DWORD 2, ''Blob'' \<mapsto> REG_BINARY []], modTime = t\<rparr>"

definition text_marker_key :: "int \<Rightarrow> certkey" where
  "text_marker_key t =
     \<lparr>vals = [cryptoAPIMagicName \<mapsto> REG_SZ ''1'', ''Blob'' \<mapsto> REG_BINARY []], modTime = t\<rparr>"

definition example_world :: "certstore \<Rightarrow> (regop \<rightharpoonup> error) \<Rightarrow> int \<Rightarrow> world" where
  "example_world st fs t =
     \<lparr>registry = [(LOCAL_MACHINE, root_path) \<mapsto> st], faults = fs, now = t, logs = [], trace = []\<rparr>"

text \<open>One day, in nanoseconds.\<close>

definition day :: int where
  "day = 86400 * Second"

text \<open>The names of the sub-containers that \<open>CreateKey\<close> was called with.\<close>

fun created :: "regop list \<Rightarrow> string list" where
  "created [] = []"
| "created (OpCreateKey k n # ops) = n # created ops"
| "created (op # ops) = created ops"

text \<open>
  A stand-in for \<open>sha1.Sum\<close> in the examples (the first 20 bytes of the input, padded with
  zeros): the properties below hold for every digest function.
\<close>

definition example_digest :: "byte list \<Rightarrow> byte list" where
  "example_digest bs = take 20 (bs @ replicate 20 0)"

text \<open>A byte sequence one byte too long for a 32-bit length.\<close>

definition oversized :: "byte list" where
  "oversized = replicate 4294967296 0"


text \<open>A configuration that names a physical store the table does not have.\<close>

definition bad_cfg :: config where
  "bad_cfg = example_cfg\<lparr>cryptoAPIFlagPhysicalStoreName := ''machine''\<rparr>"

text \<open>
  No registry call that the sweep makes for the sub-container \<open>n\<close> of the store at
  \<open>(h, p)\<close> is refused.
\<close>

definition unrefused :: "world \<Rightarrow> hive \<Rightarrow> string \<Rightarrow> string \<Rightarrow> bool" where
  "unrefused w h p n =
     (faults w (OpOpenKey (StoreKey h p) n) = None
      \<and> faults w (OpGetIntegerValue (CertKey h p n) cryptoAPIMagicName) = None
      \<and> faults w (OpStat (CertKey h p n)) = None
      \<and> faults w (OpDeleteKey (StoreKey h p) n) = None)"

text \<open>
  What the check computes for a key it can read: the key carries the marker 1 and its
  age in float64 seconds exceeds the threshold.
\<close>

definition judged_expired :: "config \<Rightarrow> world \<Rightarrow> certkey \<Rightarrow> bool" where
  "judged_expired cfg w e =
     (marker e = Some 1
      \<and> float64 (of_int (certExpirePeriod cfg)) < \<bar>Seconds (Since w (modTime e))\<bar>)"

section \<open>Properties\<close>

subsection \<open>The world after each primitive\<close>

lemma called_simps [simp]:
  "registry (called op w) = registry w"
  "faults (called op w) = faults w"
  "now (called op w) = now w"
  "logs (called op w) = logs w"
  "trace (called op w) = trace w @ [op]"
  by (simp_all add: called_def)

lemma Errorf_simps [simp]:
  "registry (Errorf f a w) = registry w"
  "faults (Errorf f a w) = faults w"
  "now (Errorf f a w) = now w"
  "logs (Errorf f a w) = logs w @ [Sprintf f a]"
  "trace (Errorf f a w) = trace w"
  by (simp_all add: Errorf_def)

lemma store_key_simps [simp]:
  "faults (store_key h p n e w) = faults w"
  "now (store_key h p n e w) = now w"
  "logs (store_key h p n e w) = logs w"
  "trace (store_key h p n e w) = trace w"
  "registry w (h, p) = Some st \<Longrightarrow>
     registry (store_key h p n e w) = (registry w)((h, p) \<mapsto> AList.update n e st)"
  by (simp_all add: store_key_def split: option.splits)

lemma lookup_key_simp [simp]:
  "registry w (h, p) = Some st \<Longrightarrow> lookup_key w h p n = map_of st n"
  by (simp add: lookup_key_def)

subsection \<open>A successful injection\<close>

lemma Marshal_single:
  "length der \<le> 4294967295 \<Longrightarrow>
   Marshal [(tag, der)] = Inr (le32 tag @ le32 1 @ le32 (of_nat (length der)) @ der)"
  by simp

text \<open>
  When the scope is known, the encoding fits, the store exists and no registry call other
  than the deletion of the old marker is refused, the injection ends in this world,
  whatever the deletion of the old marker returned.
\<close>

lemma inject_success:
  assumes scope: "cryptoAPINameToStore (cryptoAPIFlagPhysicalStoreName cfg) = Inr store"
    and len: "length der \<le> 4294967295"
    and reg: "registry w (Base store, Key cfg store) = Some st"
    and nofault:
      "\<forall>op. op \<noteq> OpDeleteValue (CertKey (Base store) (Key cfg store)
                  (ToUpper (EncodeToString (sha1_Sum der)))) cryptoAPIMagicName
            \<longrightarrow> faults w op = None"
  shows "injectCertCryptoAPI sha1_Sum cfg der w =
    ((), w\<lparr>registry := (registry w)((Base store, Key cfg store) \<mapsto>
            AList.update (ToUpper (EncodeToString (sha1_Sum der)))
              \<lparr>vals = (case map_of st (ToUpper (EncodeToString (sha1_Sum der))) of
                         None \<Rightarrow> Map.empty | Some e \<Rightarrow> vals e)
                 (cryptoAPIMagicName \<mapsto> REG_DWORD 1,
                  ''Blob'' \<mapsto> REG_BINARY (le32 0x20 @ le32 1 @ le32 (of_nat (length der)) @ der)),
               modTime = now w\<rparr> st),
          trace := trace w @
            [OpOpenKey (HiveKey (Base store)) (Key cfg store),
             OpCreateKey (StoreKey (Base store) (Key cfg store))
               (ToUpper (EncodeToString (sha1_Sum der))),
             OpDeleteValue (CertKey (Base store) (Key cfg store)
               (ToUpper (EncodeToString (sha1_Sum der)))) cryptoAPIMagicName,
             OpSetDWordValue (CertKey (Base store) (Key cfg store)
               (ToUpper (EncodeToString (sha1_Sum der)))) cryptoAPIMagicName 1,
             OpSetBinaryValue (CertKey (Base store) (Key cfg store)
               (ToUpper (EncodeToString (sha1_Sum der)))) ''Blob''
               (le32 0x20 @ le32 1 @ le32 (of_nat (length der)) @ der)]\<rparr>)"
proof -
  note hyps = scope len reg nofault
  note defs = injectCertCryptoAPI_def Let_def OpenKey_def CreateKey_def DeleteValue_def
      SetDWordValue_def SetBinaryValue_def set_value_def update_conv' cryptoAPIMagicValue_def
      store_key_def called_def cryptoAPIMagicName_def
  let ?name = "ToUpper (EncodeToString (sha1_Sum der))"
  let ?del = "OpDeleteValue (CertKey (Base store) (Key cfg store) ?name) cryptoAPIMagicName"
  show ?thesis
  proof (cases "map_of st ?name")
    case absent: None
    show ?thesis
    proof (cases "faults w ?del")
      case None
      with hyps absent show ?thesis by (simp add: defs)
    next
      case (Some err)
      with hyps absent show ?thesis by (simp add: defs)
    qed
  next
    case present: (Some e)
    show ?thesis
    proof (cases "faults w ?del")
      case None
      with hyps present show ?thesis
        by (cases e; cases "vals e cryptoAPIMagicName") (simp_all add: defs)
    next
      case (Some err)
      with hyps present show ?thesis by (cases e) (simp add: defs)
    qed
  qed
qed

subsection \<open>Rounding to float64 and the elapsed seconds\<close>

lemma rhe_ge_floor: "\<lfloor>y\<rfloor> \<le> round_half_even y"
  by (simp add: round_half_even_def Let_def)

lemma rhe_le_ceiling: "round_half_even y \<le> \<lceil>y\<rceil>"
proof (cases "y = of_int \<lfloor>y\<rfloor>")
  case True
  then have "y - of_int \<lfloor>y\<rfloor> = 0" by simp
  then have "round_half_even y = \<lfloor>y\<rfloor>" by (simp add: round_half_even_def Let_def)
  then show ?thesis by (simp add: floor_le_ceiling)
next
  case False
  then have "\<lceil>y\<rceil> = \<lfloor>y\<rfloor> + 1"
    by (simp add: ceiling_altdef)
  then show ?thesis by (simp add: round_half_even_def Let_def)
qed

lemma rhe_le: "y \<le> of_int k \<Longrightarrow> round_half_even y \<le> k"
proof -
  assume "y \<le> of_int k"
  then have "\<lceil>y\<rceil> \<le> k" by (simp add: ceiling_le_iff)
  with rhe_le_ceiling [of y] show ?thesis by linarith
qed

lemma rhe_ge: "of_int k \<le> y \<Longrightarrow> k \<le> round_half_even y"
proof -
  assume "of_int k \<le> y"
  then have "k \<le> \<lfloor>y\<rfloor>" by (simp add: le_floor_iff)
  with rhe_ge_floor [of y] show ?thesis by linarith
qed

lemma rhe_of_int: "round_half_even (of_int k) = k"
  by (simp add: round_half_even_def)

lemma rhe_minus: "round_half_even (- y) = - round_half_even y"
proof (cases "y = of_int \<lfloor>y\<rfloor>")
  case True
  then obtain k where "y = of_int k" ..
  then show ?thesis using rhe_of_int [of "- k"] rhe_of_int [of k] by simp
next
  case False
  have "\<lfloor>- y\<rfloor> = - \<lceil>y\<rceil>" by (simp add: ceiling_def)
  with False have fl: "\<lfloor>- y\<rfloor> = - \<lfloor>y\<rfloor> - 1"
    by (simp add: ceiling_altdef)
  define r where "r = y - of_int \<lfloor>y\<rfloor>"
  define f where "f = \<lfloor>y\<rfloor>"
  have fl': "\<lfloor>- y\<rfloor> = - f - 1" by (simp add: fl f_def)
  have r': "- y - of_int (- f - 1) = 1 - r" by (simp add: r_def f_def)
  have A: "round_half_even y =
      (if r < 1 / 2 then f else if 1 / 2 < r then f + 1 else if even f then f else f + 1)"
    by (simp add: round_half_even_def Let_def r_def f_def)
  have B: "round_half_even (- y) =
      (if 1 - r < 1 / 2 then - f - 1 else if 1 / 2 < 1 - r then - f
       else if odd f then - f - 1 else - f)"
    unfolding round_half_even_def Let_def fl' r' by simp
  show ?thesis unfolding A B by auto
qed

lemma binade_bounds:
  assumes "0 < x"
  shows "2 powi (binade x) \<le> x" and "x < 2 powi (binade x + 1)"
proof -
  have "2 powi (binade x) \<le> x \<and> x < 2 powi (binade x + 1)"
  proof (cases "1 \<le> x")
    case True
    define n where "n = \<lfloor>x\<rfloor>"
    have n: "0 < n" using True by (simp add: n_def)
    from bitlen_bounds [OF n] have b: "2 ^ nat (bitlen n - 1) \<le> n" "n < 2 ^ nat (bitlen n)" by auto
    have b1: "1 \<le> bitlen n" using n by (simp add: bitlen_alt_def)
    have e: "binade x = bitlen n - 1" using True by (simp add: binade_def n_def)
    have "(2::rat) powi (bitlen n - 1) = 2 ^ nat (bitlen n - 1)"
      using b1 by (simp add: power_int_nonneg_exp)
    also have "\<dots> = of_int (2 ^ nat (bitlen n - 1))" by simp
    also have "\<dots> \<le> of_int n" using b(1) by (simp only: of_int_le_iff)
    also have "\<dots> \<le> x" by (simp add: n_def)
    finally have lo: "2 powi (binade x) \<le> x" by (simp add: e)
    have "n + 1 \<le> 2 ^ nat (bitlen n)" using b(2) by simp
    then have "(of_int (n + 1) :: rat) \<le> of_int (2 ^ nat (bitlen n))" by (simp only: of_int_le_iff)
    moreover have "x < of_int (n + 1)" using floor_correct [of x] by (simp add: n_def)
    ultimately have "x < of_int (2 ^ nat (bitlen n))" by simp
    also have "\<dots> = 2 powi (bitlen n)" using b1 by (simp add: power_int_nonneg_exp)
    finally have "x < 2 powi (binade x + 1)" by (simp add: e)
    with lo show ?thesis by simp
  next
    case False
    then have x1: "x < 1" by simp
    define c where "c = \<lceil>1 / x\<rceil>"
    define m where "m = c - 1"
    have "1 < 1 / x" using assms x1 by (simp add: field_simps)
    then have "1 < c" unfolding c_def by (simp add: less_ceiling_iff)
    then have m: "0 < m" by (simp add: m_def)
    from bitlen_bounds [OF m] have b: "2 ^ nat (bitlen m - 1) \<le> m" "m < 2 ^ nat (bitlen m)" by auto
    have b1: "1 \<le> bitlen m" using m by (simp add: bitlen_alt_def)
    have e: "binade x = - bitlen m" using False by (simp add: binade_def m_def c_def)
    have "1 / x \<le> of_int c" by (simp add: c_def)
    also have "(of_int c :: rat) \<le> of_int (2 ^ nat (bitlen m))"
      using b(2) unfolding m_def by (simp only: of_int_le_iff)
    also have "\<dots> = 2 powi (bitlen m)" using b1 by (simp add: power_int_nonneg_exp)
    finally have "1 / x \<le> 2 powi (bitlen m)" .
    then have "1 \<le> 2 powi (bitlen m) * x" using assms by (simp add: field_simps)
    then have lo: "2 powi (- bitlen m) \<le> x"
      by (simp add: power_int_minus field_simps)
    have "(of_int (2 ^ nat (bitlen m - 1)) :: rat) \<le> of_int m" using b(1) by (simp only: of_int_le_iff)
    also have "(of_int m :: rat) < 1 / x" unfolding m_def c_def
      by (metis ceiling_correct of_int_diff of_int_1)
    finally have "2 ^ nat (bitlen m - 1) < 1 / x" by simp
    then have "2 powi (bitlen m - 1) < 1 / x" using b1 by (simp add: power_int_nonneg_exp)
    then have "2 powi (bitlen m - 1) * x < 1" using assms by (simp add: field_simps)
    then have "x < 2 powi (- bitlen m + 1)"
      by (simp add: power_int_minus power_int_diff power_int_add field_simps)
    with lo show ?thesis by (simp add: e)
  qed
  then show "2 powi (binade x) \<le> x" and "x < 2 powi (binade x + 1)" by simp_all
qed


lemma float64_minus: "float64 (- x) = - float64 x"
  by (simp add: float64_def Let_def rhe_minus)

lemma float64_nonneg: "0 \<le> x \<Longrightarrow> 0 \<le> float64 x"
proof -
  assume x: "0 \<le> x"
  define u :: rat where "u = 2 powi (binade \<bar>x\<bar> - 52)"
  have u: "0 < u" by (simp add: u_def)
  have "of_int 0 \<le> x / u" using x u by simp
  then have "0 \<le> round_half_even (x / u)" by (rule rhe_ge)
  then have "0 \<le> of_int (round_half_even (x / u)) * u" using u by simp
  then show ?thesis by (simp add: float64_def Let_def u_def)
qed

lemma ulp_scale:
  fixes e :: int
  shows "(2::rat) powi e / 2 powi (e - 52) = 2 ^ 52"
    and "(2::rat) powi (e + 1) / 2 powi (e - 52) = 2 ^ 53"
proof -
  have "(2::rat) powi 52 = 2 powi (e - (e - 52))" by simp
  also have "\<dots> = 2 powi e / 2 powi (e - 52)" by (rule power_int_diff) simp
  finally show "(2::rat) powi e / 2 powi (e - 52) = 2 ^ 52" by simp
  have "(2::rat) powi 53 = 2 powi (e + 1 - (e - 52))" by simp
  also have "\<dots> = 2 powi (e + 1) / 2 powi (e - 52)" by (rule power_int_diff) simp
  finally show "(2::rat) powi (e + 1) / 2 powi (e - 52) = 2 ^ 53" by simp
qed

lemma int_over_ulp:
  fixes e n :: int
  assumes "e \<le> 52"
  shows "(of_int n :: rat) / 2 powi (e - 52) = of_int (n * 2 ^ nat (52 - e))"
proof -
  have "(2::rat) powi (e - 52) = 2 powi (- (52 - e))" by simp
  also have "\<dots> = 1 / 2 powi (52 - e)" by (simp only: power_int_minus_divide)
  also have "\<dots> = 1 / 2 ^ nat (52 - e)" using assms by (simp add: power_int_nonneg_exp)
  finally show ?thesis by simp
qed

lemma float64_le_int:
  assumes x: "0 < x" and le: "x \<le> of_int n" and n: "n \<le> 2 ^ 52"
  shows "float64 x \<le> of_int n"
proof -
  define e where "e = binade x"
  define u :: rat where "u = 2 powi (e - 52)"
  have u: "0 < u" by (simp add: u_def)
  from binade_bounds [OF x] have b: "2 powi e \<le> x" "x < 2 powi (e + 1)" by (simp_all add: e_def)
  have fl: "float64 x = of_int (round_half_even (x / u)) * u"
    using x by (simp add: float64_def Let_def u_def e_def)
  show ?thesis
  proof (cases "(2::rat) powi (e + 1) \<le> of_int n")
    case True
    have "x / u \<le> 2 powi (e + 1) / u" using b(2) u by (simp add: divide_right_mono)
    also have "\<dots> = of_int (2 ^ 53)" by (simp add: u_def ulp_scale)
    finally have "round_half_even (x / u) \<le> 2 ^ 53" by (rule rhe_le)
    then have "(of_int (round_half_even (x / u)) :: rat) \<le> of_int (2 ^ 53)"
      by (simp only: of_int_le_iff)
    then have "float64 x \<le> of_int (2 ^ 53) * u" using u by (simp add: fl)
    also have "\<dots> = (2 powi (e + 1) / u) * u" by (simp add: u_def ulp_scale)
    also have "\<dots> = 2 powi (e + 1)" using u by simp
    finally show ?thesis using True by simp
  next
    case False
    have "(2::rat) powi e \<le> of_int n" using b(1) le by simp
    also have "(of_int n :: rat) \<le> of_int (2 ^ 52)" using n by (simp only: of_int_le_iff)
    finally have "(2::rat) powi e \<le> 2 powi (52::int)" by simp
    then have e52: "e \<le> 52" by (rule power_int_le_imp_le_exp [rotated]) simp_all
    have "x / u \<le> of_int n / u" using le u by (simp add: divide_right_mono)
    also have "\<dots> = of_int (n * 2 ^ nat (52 - e))" unfolding u_def by (rule int_over_ulp [OF e52])
    finally have "round_half_even (x / u) \<le> n * 2 ^ nat (52 - e)" by (rule rhe_le)
    then have "(of_int (round_half_even (x / u)) :: rat) \<le> of_int (n * 2 ^ nat (52 - e))"
      by (simp only: of_int_le_iff)
    then have "float64 x \<le> of_int (n * 2 ^ nat (52 - e)) * u" using u by (simp add: fl)
    also have "\<dots> = (of_int n / u) * u" unfolding u_def by (simp only: int_over_ulp [OF e52])
    also have "\<dots> = of_int n" using u by simp
    finally show ?thesis .
  qed
qed

lemma float64_ge_int:
  assumes x: "0 < x" and ge: "of_int n \<le> x" and n: "n \<le> 2 ^ 52"
  shows "of_int n \<le> float64 x"
proof -
  define e where "e = binade x"
  define u :: rat where "u = 2 powi (e - 52)"
  have u: "0 < u" by (simp add: u_def)
  from binade_bounds [OF x] have b: "2 powi e \<le> x" "x < 2 powi (e + 1)" by (simp_all add: e_def)
  have fl: "float64 x = of_int (round_half_even (x / u)) * u"
    using x by (simp add: float64_def Let_def u_def e_def)
  show ?thesis
  proof (cases "of_int n \<le> (2::rat) powi e")
    case True
    have "of_int (2 ^ 52) = 2 powi e / u" by (simp add: u_def ulp_scale)
    also have "\<dots> \<le> x / u" using b(1) u by (simp add: divide_right_mono)
    finally have "2 ^ 52 \<le> round_half_even (x / u)" by (rule rhe_ge)
    then have "(of_int (2 ^ 52) :: rat) \<le> of_int (round_half_even (x / u))"
      by (simp only: of_int_le_iff)
    then have "of_int (2 ^ 52) * u \<le> float64 x" using u by (simp add: fl)
    moreover have "of_int (2 ^ 52) * u = (2 powi e / u) * u" by (simp add: u_def ulp_scale)
    moreover have "(2 powi e / u) * u = 2 powi e" using u by simp
    ultimately show ?thesis using True by simp
  next
    case False
    then have "(2::rat) powi e < of_int n" by simp
    also have "(of_int n :: rat) \<le> of_int (2 ^ 52)" using n by (simp only: of_int_le_iff)
    finally have "(2::rat) powi e \<le> 2 powi (52::int)" by simp
    then have e52: "e \<le> 52" by (rule power_int_le_imp_le_exp [rotated]) simp_all
    have "of_int (n * 2 ^ nat (52 - e)) = of_int n / u" unfolding u_def by (rule int_over_ulp [OF e52, symmetric])
    also have "\<dots> \<le> x / u" using ge u by (simp add: divide_right_mono)
    finally have "n * 2 ^ nat (52 - e) \<le> round_half_even (x / u)" by (rule rhe_ge)
    then have "(of_int (n * 2 ^ nat (52 - e)) :: rat) \<le> of_int (round_half_even (x / u))"
      by (simp only: of_int_le_iff)
    then have "of_int (n * 2 ^ nat (52 - e)) * u \<le> float64 x" using u by (simp add: fl)
    moreover have "of_int (n * 2 ^ nat (52 - e)) * u = (of_int n / u) * u"
      unfolding u_def by (simp only: int_over_ulp [OF e52])
    moreover have "(of_int n / u) * u = of_int n" using u by simp
    ultimately show ?thesis by simp
  qed
qed


lemma float64_zero: "float64 0 = 0"
  by (simp add: float64_def)

lemma float64_int_upper:
  assumes le: "x \<le> of_int n" and n: "\<bar>n\<bar> \<le> 2 ^ 52"
  shows "float64 x \<le> of_int n"
proof -
  consider "x = 0" | "0 < x" | "x < 0" "0 \<le> n" | "x < 0" "n < 0" by linarith
  then show ?thesis
  proof cases
    case 1
    then show ?thesis using le by (simp add: float64_zero)
  next
    case 2
    then show ?thesis using le n by (intro float64_le_int) simp_all
  next
    case 3
    have "0 \<le> float64 (- x)" using 3 by (intro float64_nonneg) simp
    then have "float64 x \<le> 0" by (simp add: float64_minus)
    then show ?thesis using 3 by simp
  next
    case 4
    have "of_int (- n) \<le> float64 (- x)" using 4 le n by (intro float64_ge_int) simp_all
    then show ?thesis by (simp add: float64_minus)
  qed
qed

lemma float64_int_lower:
  assumes ge: "of_int n \<le> x" and n: "\<bar>n\<bar> \<le> 2 ^ 52"
  shows "of_int n \<le> float64 x"
proof -
  have "float64 (- x) \<le> of_int (- n)" using ge n by (intro float64_int_upper) simp_all
  then show ?thesis by (simp add: float64_minus)
qed

lemma float64_of_int:
  assumes "\<bar>n\<bar> \<le> 2 ^ 52"
  shows "float64 (of_int n) = of_int n"
  using float64_int_upper [of "of_int n" n] float64_int_lower [of n "of_int n"] assms by simp

lemma Seconds_minus: "Seconds (- d) = - Seconds d"
proof -
  define A where "A = float64 (of_int (d sdiv Second))"
  define B where "B = float64 (float64 (of_int (d smod Second)) / 1000000000)"
  have a: "(- d) sdiv Second = - (d sdiv Second)" "(- d) smod Second = - (d smod Second)"
    by (simp_all add: signed_divide_int_def signed_modulo_int_def)
  have A': "float64 (of_int (- (d sdiv Second))) = - A"
    by (simp add: A_def float64_minus)
  have B': "float64 (float64 (of_int (- (d smod Second))) / 1000000000) = - B"
    by (simp add: B_def float64_minus)
  have "Seconds (- d) = float64 (- A + - B)"
    unfolding Seconds_def Let_def a A' B' ..
  also have "\<dots> = float64 (- (A + B))" by simp
  also have "\<dots> = - float64 (A + B)" by (rule float64_minus)
  also have "float64 (A + B) = Seconds d"
    unfolding Seconds_def Let_def A_def B_def ..
  finally show ?thesis .
qed

lemma Seconds_bounds:
  assumes d0: "0 \<le> d" and d63: "d \<le> 2 ^ 63"
  shows "of_int (d div Second) \<le> Seconds d"
    and "Seconds d \<le> of_int (d div Second + 1)"
    and "d mod Second = 0 \<Longrightarrow> Seconds d = of_int (d div Second)"
proof -
  define sec where "sec = d div Second"
  define nsec where "nsec = d mod Second"
  have sd: "d sdiv Second = sec" "d smod Second = nsec"
    using d0 by (simp_all add: signed_divide_int_def signed_modulo_int_def sec_def nsec_def Second_def sgn_if)
  have sec: "0 \<le> sec" "sec \<le> 9223372036"
    using d0 d63 by (simp_all add: sec_def Second_def)
  have nsec: "0 \<le> nsec" "nsec < 1000000000"
    by (simp_all add: nsec_def Second_def)
  have fsec: "float64 (of_int sec) = of_int sec"
    using sec by (intro float64_of_int) simp
  have fnsec: "float64 (of_int nsec) = of_int nsec"
    using nsec by (intro float64_of_int) simp
  define frac where "frac = float64 (of_int nsec / 1000000000)"
  have "of_int 0 \<le> (of_int nsec :: rat) / 1000000000" using nsec by simp
  then have "of_int 0 \<le> frac" unfolding frac_def by (rule float64_int_lower) simp
  then have f0: "0 \<le> frac" by simp
  have "(of_int nsec :: rat) / 1000000000 \<le> of_int 1" using nsec by simp
  then have "frac \<le> of_int 1" unfolding frac_def by (rule float64_int_upper) simp
  then have f1: "frac \<le> 1" by simp
  have S: "Seconds d = float64 (of_int sec + frac)"
    by (simp add: Seconds_def Let_def sd fsec fnsec frac_def)
  have "of_int sec \<le> of_int sec + frac" using f0 by simp
  then have "of_int sec \<le> float64 (of_int sec + frac)"
    using sec by (intro float64_int_lower) simp_all
  then show "of_int (d div Second) \<le> Seconds d" by (simp add: S sec_def)
  have "of_int sec + frac \<le> of_int (sec + 1)" using f1 by simp
  then have "float64 (of_int sec + frac) \<le> of_int (sec + 1)"
    using sec by (intro float64_int_upper) simp_all
  then show "Seconds d \<le> of_int (d div Second + 1)" by (simp add: S sec_def)
  show "Seconds d = of_int (d div Second)" if "d mod Second = 0"
  proof -
    from that have "frac = 0" by (simp add: frac_def nsec_def float64_zero)
    then show ?thesis using fsec by (simp add: S sec_def)
  qed
qed

lemma Seconds_abs:
  assumes "\<bar>d\<bar> \<le> 2 ^ 63"
  shows "\<bar>Seconds d\<bar> = Seconds \<bar>d\<bar>"
proof (cases "0 \<le> d")
  case True
  have "0 \<le> d div Second" using True by (simp add: Second_def pos_imp_zdiv_nonneg_iff)
  then have "(0::rat) \<le> of_int (d div Second)" by simp
  also have "\<dots> \<le> Seconds d" using True assms by (intro Seconds_bounds) simp_all
  finally show ?thesis using True by simp
next
  case False
  then have d: "0 \<le> - d" "- d \<le> 2 ^ 63" using assms by simp_all
  have "0 \<le> (- d) div Second" using d by (simp add: Second_def pos_imp_zdiv_nonneg_iff)
  then have "(0::rat) \<le> of_int ((- d) div Second)" by simp
  also have "\<dots> \<le> Seconds (- d)" using d by (intro Seconds_bounds) simp_all
  finally have "0 \<le> Seconds (- d)" .
  then have "\<bar>Seconds d\<bar> = Seconds (- d)" by (simp add: Seconds_minus)
  then show ?thesis using False by simp
qed


lemma expired_from_next_second:
  assumes ge: "(T + 1) * Second \<le> \<bar>d\<bar>" and d63: "\<bar>d\<bar> \<le> 2 ^ 63"
  shows "float64 (of_int T) < \<bar>Seconds d\<bar>"
proof -
  define a where "a = \<bar>d\<bar>"
  have a: "0 \<le> a" "a \<le> 2 ^ 63" "(T + 1) * Second \<le> a" using ge d63 by (simp_all add: a_def)
  have lo: "of_int (a div Second) \<le> Seconds a" using a by (intro Seconds_bounds) simp_all
  have sec: "a div Second \<le> 9223372036" "0 \<le> a div Second"
    using a by (simp_all add: Second_def pos_imp_zdiv_nonneg_iff)
  have "(T + 1) * Second div Second \<le> a div Second" using a(3) by (rule zdiv_mono1) (simp add: Second_def)
  then have T1: "T + 1 \<le> a div Second" by (simp add: Second_def)
  have "float64 (of_int T) < of_int (a div Second)"
  proof (cases "0 \<le> T")
    case True
    then have "float64 (of_int T) = of_int T" using T1 sec by (intro float64_of_int) simp
    then show ?thesis using T1 by simp
  next
    case False
    then have "T \<le> - 1" by simp
    then have "(of_int T :: rat) \<le> of_int (- 1)" by (simp only: of_int_le_iff)
    then have "float64 (of_int T) \<le> of_int (- 1)" by (rule float64_int_upper) simp
    then show ?thesis using sec(2) by simp
  qed
  with lo have "float64 (of_int T) < Seconds a" by simp
  then show ?thesis using Seconds_abs [OF d63] by (simp add: a_def)
qed

subsection \<open>The expiry check and the sweep\<close>

lemma OpenKey_world: "snd (OpenKey k path w) = called (OpOpenKey k path) w"
  by (simp add: OpenKey_def Let_def split: option.splits handle.splits)

lemma GetIntegerValue_world:
  "snd (GetIntegerValue k name w) = called (OpGetIntegerValue k name) w"
  by (simp add: GetIntegerValue_def Let_def split: option.splits handle.splits regvalue.splits)

lemma Stat_world: "snd (Stat k w) = called (OpStat k) w"
  by (simp add: Stat_def Let_def split: option.splits handle.splits)

lemma OpenKey_Inr:
  "fst (OpenKey k path w) = Inr ck \<longleftrightarrow>
     faults w (OpOpenKey k path) = None \<and>
     ((\<exists>h. k = HiveKey h \<and> registry w (h, path) \<noteq> None \<and> ck = StoreKey h path) \<or>
      (\<exists>h p. k = StoreKey h p \<and> lookup_key w h p path \<noteq> None \<and> ck = CertKey h p path))"
  by (auto simp: OpenKey_def Let_def split: option.splits handle.splits)

lemma GetIntegerValue_Inr:
  "fst (GetIntegerValue (CertKey h p n) cryptoAPIMagicName w) = Inr v \<longleftrightarrow>
     faults w (OpGetIntegerValue (CertKey h p n) cryptoAPIMagicName) = None \<and>
     (\<exists>e. lookup_key w h p n = Some e \<and> marker e = Some v)"
  by (auto simp: GetIntegerValue_def marker_def Let_def split: option.splits regvalue.splits)

lemma Stat_Inr:
  "fst (Stat (CertKey h p n) w) = Inr t \<longleftrightarrow>
     faults w (OpStat (CertKey h p n)) = None \<and>
     (\<exists>e. lookup_key w h p n = Some e \<and> modTime e = t)"
  by (auto simp: Stat_def Let_def split: option.splits)

lemma lookup_key_called [simp]: "lookup_key (called op w) = lookup_key w"
  by (simp add: lookup_key_def fun_eq_iff)

lemma lookup_key_Errorf [simp]: "lookup_key (Errorf f a w) = lookup_key w"
  by (simp add: lookup_key_def fun_eq_iff)

lemma Since_called [simp]: "Since (called op w) = Since w"
  by (simp add: Since_def fun_eq_iff)

text \<open>The check only reads: it leaves the registry, the clock and the log alone.\<close>

lemma check_frame:
  "registry (snd (checkCertExpiredCryptoAPI cfg k n w)) = registry w"
  "faults (snd (checkCertExpiredCryptoAPI cfg k n w)) = faults w"
  "now (snd (checkCertExpiredCryptoAPI cfg k n w)) = now w"
  "logs (snd (checkCertExpiredCryptoAPI cfg k n w)) = logs w"
  by (auto simp: checkCertExpiredCryptoAPI_def Let_def split_beta OpenKey_world
      GetIntegerValue_world Stat_world
      split: sum.splits prod.splits dest!: arg_cong [where f = snd])

lemma lookup_key_check [simp]:
  "lookup_key (snd (checkCertExpiredCryptoAPI cfg k n w)) = lookup_key w"
  by (simp add: lookup_key_def fun_eq_iff check_frame)

text \<open>The check answers ``expired'' only for a key that carries the marker 1.\<close>

lemma GetIntegerValue_handle:
  "fst (GetIntegerValue ck name w) = Inr v \<Longrightarrow> \<exists>h p n. ck = CertKey h p n"
  by (cases ck) (simp_all add: GetIntegerValue_def Let_def split: option.splits)

lemma check_expired_owned:
  assumes "fst (checkCertExpiredCryptoAPI cfg k n w) = Inr True"
  shows "\<exists>h p e. k = StoreKey h p \<and> lookup_key w h p n = Some e \<and> marker e = Some 1"
proof -
  obtain r1 w1 where o: "OpenKey k n w = (r1, w1)" by (cases "OpenKey k n w")
  then have w1: "w1 = called (OpOpenKey k n) w" using OpenKey_world [of k n w] by simp
  show ?thesis
  proof (cases r1)
    case (Inl err)
    with assms o show ?thesis by (simp add: checkCertExpiredCryptoAPI_def)
  next
    case ck: (Inr ck)
    obtain r2 w2 where g: "GetIntegerValue ck cryptoAPIMagicName w1 = (r2, w2)"
      by (cases "GetIntegerValue ck cryptoAPIMagicName w1")
    show ?thesis
    proof (cases r2)
      case (Inl err)
      with assms o g ck show ?thesis by (simp add: checkCertExpiredCryptoAPI_def)
    next
      case v: (Inr v)
      with assms o g ck have "v = cryptoAPIMagicValue"
        by (simp add: checkCertExpiredCryptoAPI_def split: if_splits)
      then have one: "fst (GetIntegerValue ck cryptoAPIMagicName w1) = Inr 1"
        using g v by (simp add: cryptoAPIMagicValue_def)
      then obtain h p m where cert: "ck = CertKey h p m"
        using GetIntegerValue_handle by blast
      have "fst (OpenKey k n w) = Inr (CertKey h p m)" using o ck cert by simp
      then have k: "k = StoreKey h p" and m: "m = n" unfolding OpenKey_Inr by auto
      from one obtain e where "lookup_key w1 h p n = Some e" "marker e = Some 1"
        unfolding cert m GetIntegerValue_Inr by blast
      then show ?thesis using k by (auto simp: w1)
    qed
  qed
qed

lemma DeleteKey_frame:
  "faults (snd (DeleteKey k name w)) = faults w"
  "now (snd (DeleteKey k name w)) = now w"
  "logs (snd (DeleteKey k name w)) = logs w"
  "trace (snd (DeleteKey k name w)) = trace w @ [OpDeleteKey k name]"
  by (simp_all add: DeleteKey_def Let_def split: option.splits handle.splits)

lemma DeleteKey_lookup:
  "lookup_key (snd (DeleteKey k name w)) h p n =
     (if fst (DeleteKey k name w) = Inr () \<and> k = StoreKey h p \<and> name = n then None
      else lookup_key w h p n)"
  by (auto simp: DeleteKey_def Let_def lookup_key_def delete_conv'
      split: option.splits handle.splits)

text \<open>
  A key whose marker is not 1 survives the loop, whatever names are enumerated, whatever
  calls are refused and whatever its age.
\<close>

lemma loop_keeps_unowned:
  assumes "lookup_key w h p n = Some e" and "marker e \<noteq> Some 1"
  shows "lookup_key (cleanCerts_loop cfg k names w) h p n = Some e"
  using assms(1)
proof (induction names arbitrary: w)
  case Nil
  then show ?case by simp
next
  case (Cons name names)
  obtain r w1 where c: "checkCertExpiredCryptoAPI cfg k name w = (r, w1)"
    by (cases "checkCertExpiredCryptoAPI cfg k name w")
  then have w1: "lookup_key w1 = lookup_key w"
    using lookup_key_check [of cfg k name w] by simp
  show ?case
  proof (cases r)
    case (Inl err)
    with c Cons.prems w1 show ?thesis by simp
  next
    case (Inr expired)
    show ?thesis
    proof (cases expired)
      case False
      with c Inr Cons.prems w1 show ?thesis by (simp add: Cons.IH)
    next
      case True
      with c Inr have "fst (checkCertExpiredCryptoAPI cfg k name w) = Inr True" by simp
      then obtain h' p' e' where own: "k = StoreKey h' p'" "lookup_key w h' p' name = Some e'"
        "marker e' = Some 1"
        using check_expired_owned by blast
      have differ: "\<not> (k = StoreKey h p \<and> name = n)"
        using own Cons.prems assms(2) by auto
      obtain r2 w2 where d: "DeleteKey k name w1 = (r2, w2)" by (cases "DeleteKey k name w1")
      have "lookup_key w2 h p n = Some e"
        using DeleteKey_lookup [of k name w1 h p n] d differ Cons.prems w1 by auto
      then have "lookup_key (cleanCerts_loop cfg k names w2) h p n = Some e"
        and "lookup_key (cleanCerts_loop cfg k names (Errorf ''Coudn't delete expired cert: %s'' [err] w2)) h p n = Some e" for err
        by (simp_all add: Cons.IH)
      then show ?thesis using c Inr True d by (cases r2) simp_all
    qed
  qed
qed

lemma clean_keeps_unowned:
  assumes "lookup_key w h p n = Some e" and "marker e \<noteq> Some 1"
  shows "lookup_key (snd (cleanCertsCryptoAPI cfg w)) h p n = Some e"
proof -
  have *: "lookup_key (snd (OpenKey k path w)) = lookup_key w" for k path w
    by (simp add: OpenKey_world)
  have rs: "snd (ReadSubKeyNames k w) = called (OpReadSubKeyNames k) w" for k w
    by (simp add: ReadSubKeyNames_def Let_def split: option.splits handle.splits)
  show ?thesis
    using assms
    by (auto simp: cleanCertsCryptoAPI_def Let_def split: sum.splits prod.splits
        dest!: arg_cong [where f = snd] simp: OpenKey_world rs intro!: loop_keeps_unowned)
qed

subsection \<open>The example registry\<close>

lemma example_scope:
  "cryptoAPINameToStore (cryptoAPIFlagPhysicalStoreName example_cfg) = Inr system_scope"
  by (simp add: cryptoAPINameToStore_def cryptoAPIStores_def system_scope_def example_cfg_def)

lemma example_scope_Key [simp]:
  "Key example_cfg system_scope = root_path"
  "Base system_scope = LOCAL_MACHINE"
  by (simp_all add: Key_def system_scope_def example_cfg_def root_path_def backslash_def)

lemma example_world_simps [simp]:
  "registry (example_world st fs t) = [(LOCAL_MACHINE, root_path) \<mapsto> st]"
  "faults (example_world st fs t) = fs"
  "now (example_world st fs t) = t"
  "logs (example_world st fs t) = []"
  "trace (example_world st fs t) = []"
  by (simp_all add: example_world_def)

subsection \<open>The blob codec and the hexadecimal rendering\<close>

lemma from_le32_le32: "from_le32 (le32 v) = v"
proof (rule bit_word_eqI)
  fix n
  assume "n < LENGTH(32)"
  then consider "n < 8" | "8 \<le> n" "n < 16" | "16 \<le> n" "n < 24" | "24 \<le> n" "n < 32"
    by fastforce
  then show "bit (from_le32 (le32 v)) n = bit v n"
  proof cases
    case 1
    then show ?thesis by (auto simp: from_le32_def le32_def bit_simps)
  next
    case 2
    then show ?thesis by (auto simp: from_le32_def le32_def bit_simps)
  next
    case 3
    then show ?thesis by (auto simp: from_le32_def le32_def bit_simps)
  next
    case 4
    then show ?thesis by (auto simp: from_le32_def le32_def bit_simps)
  qed
qed

lemma hex_digit_upper:
  "i < 16 \<Longrightarrow> upper_char (hextable ! i) = upper_hextable ! i"
proof -
  assume "i < 16"
  moreover have "\<forall>i \<in> set [0..<16]. upper_char (hextable ! i) = upper_hextable ! i"
    by code_simp
  ultimately show ?thesis by simp
qed

lemma nibbles:
  fixes v :: byte
  shows "unat (drop_bit 4 v) = unat v div 16" and "unat (v AND 0x0f) = unat v mod 16"
proof -
  show "unat (drop_bit 4 v) = unat v div 16"
    by (simp add: drop_bit_eq_div unat_div)
  have "v AND 0x0f = take_bit 4 v"
    by (simp add: take_bit_eq_mask mask_eq_exp_minus_1)
  then show "unat (v AND 0x0f) = unat v mod 16"
    by (simp add: take_bit_eq_mod unat_mod)
qed

lemma ToUpper_EncodeToString: "ToUpper (EncodeToString bs) = upper_hex bs"
proof (induction bs)
  case Nil
  then show ?case by (simp add: ToUpper_def)
next
  case (Cons v bs)
  have "unat v div 16 < 16" using unsigned_less [of v, where 'a = nat] by simp
  moreover have "unat v mod 16 < 16" by simp
  ultimately show ?case using Cons
    by (simp add: ToUpper_def nibbles hex_digit_upper)
qed

lemma Unmarshal_single:
  assumes "length der \<le> 4294967295"
  shows "Unmarshal (le32 tag @ le32 1 @ le32 (of_nat (length der)) @ der) = Inr [(tag, der)]"
proof -
  have len: "unat (of_nat (length der) :: 32 word) = length der"
    using assms by (simp add: unat_of_nat)
  have l4: "length (le32 x) = 4" for x by (simp add: le32_def)
  have a: "take 4 (le32 tag @ le32 1 @ le32 (of_nat (length der)) @ der) = le32 tag"
    by (simp add: l4)
  have b: "take 4 (drop 8 (le32 tag @ le32 1 @ le32 (of_nat (length der)) @ der)) = le32 (of_nat (length der))"
    by (simp add: l4)
  have c: "drop 12 (le32 tag @ le32 1 @ le32 (of_nat (length der)) @ der) = der"
    by (simp add: l4)
  have d: "length (le32 tag @ le32 1 @ le32 (of_nat (length der)) @ der) = 12 + length der"
    by (simp add: l4)
  have e: "le32 tag @ le32 1 @ le32 (of_nat (length der)) @ der \<noteq> []"
    by (simp add: le32_def)
  have f: "drop (12 + length der) (le32 tag @ le32 1 @ le32 (of_nat (length der)) @ der) = []"
    by (simp add: l4)
  show ?thesis
    apply (subst Unmarshal.simps)
    apply (simp only: a b c d e f from_le32_le32 len)
    apply (simp add: Unmarshal.simps [of "[]"])
    done
qed

lemma example_name_eq:
  "ToUpper (EncodeToString (example_digest example_der)) = example_name"
  by code_simp

lemma calls_append [simp]: "trace w' = trace w @ ops \<Longrightarrow> calls w w' = ops"
  by (simp add: calls_def)

lemma length_oversized: "length oversized = 4294967296"
  by (simp add: oversized_def)

lemma Sprintf_one:
  "Sprintf ''error: %s'' [err] = ''error: '' @ err"
  "Sprintf ''Couldn't marshal cert blob: %s'' [err] = ''Couldn't marshal cert blob: '' @ err"
  "Sprintf ''Couldn't open cert store: %s'' [err] = ''Couldn't open cert store: '' @ err"
  "Sprintf ''Couldn't list certs in cert store: %s'' [err] = ''Couldn't list certs in cert store: '' @ err"
  "Sprintf ''Couldn't check if cert is expired: %s'' [err] = ''Couldn't check if cert is expired: '' @ err"
  "Sprintf ''Couldn't open cert registry key: %s'' [err] = ''Couldn't open cert registry key: '' @ err"
  "Sprintf ''Couldn't read metadata for cert registry key: %s'' [err] =
     ''Couldn't read metadata for cert registry key: '' @ err"
  "Sprintf ''Coudn't delete expired cert: %s'' [err] = ''Coudn't delete expired cert: '' @ err"
  by simp_all

subsection \<open>Outcomes of the expiry check\<close>

lemma check_open_fails:
  assumes "fst (OpenKey k n w) = Inl err"
  shows "checkCertExpiredCryptoAPI cfg k n w =
    (Inl (''Couldn't open cert registry key: '' @ err), called (OpOpenKey k n) w)"
proof -
  from assms have "OpenKey k n w = (Inl err, called (OpOpenKey k n) w)"
    using OpenKey_world [of k n w] by (cases "OpenKey k n w") simp
  then show ?thesis by (simp add: checkCertExpiredCryptoAPI_def Sprintf_one)
qed

lemma check_unreadable:
  assumes "fst (OpenKey k n w) = Inr ck"
    and "fst (GetIntegerValue ck cryptoAPIMagicName (snd (OpenKey k n w))) = Inl err"
  shows "checkCertExpiredCryptoAPI cfg k n w =
    (Inr False, called (OpGetIntegerValue ck cryptoAPIMagicName) (called (OpOpenKey k n) w))"
proof -
  from assms(1) have o: "OpenKey k n w = (Inr ck, called (OpOpenKey k n) w)"
    using OpenKey_world [of k n w] by (cases "OpenKey k n w") simp
  with assms(2) have "GetIntegerValue ck cryptoAPIMagicName (called (OpOpenKey k n) w) =
      (Inl err, called (OpGetIntegerValue ck cryptoAPIMagicName) (called (OpOpenKey k n) w))"
    using GetIntegerValue_world [of ck cryptoAPIMagicName "called (OpOpenKey k n) w"]
    by (cases "GetIntegerValue ck cryptoAPIMagicName (called (OpOpenKey k n) w)") simp
  with o show ?thesis by (simp add: checkCertExpiredCryptoAPI_def)
qed

text \<open>The verdict on a key that carries the marker 1, when its three reads succeed.\<close>

lemma check_verdict:
  assumes key: "lookup_key w h p n = Some e" and own: "marker e = Some 1"
    and f1: "faults w (OpOpenKey (StoreKey h p) n) = None"
    and f2: "faults w (OpGetIntegerValue (CertKey h p n) cryptoAPIMagicName) = None"
    and f3: "faults w (OpStat (CertKey h p n)) = None"
  shows "checkCertExpiredCryptoAPI cfg (StoreKey h p) n w =
    (Inr (float64 (of_int (certExpirePeriod cfg)) < \<bar>Seconds (Since w (modTime e))\<bar>),
     called (OpStat (CertKey h p n))
       (called (OpGetIntegerValue (CertKey h p n) cryptoAPIMagicName)
          (called (OpOpenKey (StoreKey h p) n) w)))"
proof -
  let ?w1 = "called (OpOpenKey (StoreKey h p) n) w"
  let ?w2 = "called (OpGetIntegerValue (CertKey h p n) cryptoAPIMagicName) ?w1"
  let ?w3 = "called (OpStat (CertKey h p n)) ?w2"
  have o: "OpenKey (StoreKey h p) n w = (Inr (CertKey h p n), ?w1)"
    using key f1 by (simp add: OpenKey_def)
  have "fst (GetIntegerValue (CertKey h p n) cryptoAPIMagicName ?w1) = Inr 1"
    unfolding GetIntegerValue_Inr using key own f2 by simp
  then have g: "GetIntegerValue (CertKey h p n) cryptoAPIMagicName ?w1 = (Inr 1, ?w2)"
    using GetIntegerValue_world [of "CertKey h p n" cryptoAPIMagicName ?w1]
    by (cases "GetIntegerValue (CertKey h p n) cryptoAPIMagicName ?w1") simp
  have "fst (Stat (CertKey h p n) ?w2) = Inr (modTime e)"
    unfolding Stat_Inr using key f3 by simp
  then have s: "Stat (CertKey h p n) ?w2 = (Inr (modTime e), ?w3)"
    using Stat_world [of "CertKey h p n" ?w2]
    by (cases "Stat (CertKey h p n) ?w2") simp
  show ?thesis
    by (simp add: checkCertExpiredCryptoAPI_def o g s cryptoAPIMagicValue_def)
qed

lemma DeleteKey_ok:
  assumes "lookup_key w h p n = Some e" and "faults w (OpDeleteKey (StoreKey h p) n) = None"
  shows "fst (DeleteKey (StoreKey h p) n w) = Inr ()"
  using assms by (auto simp: DeleteKey_def lookup_key_def split: option.splits)

lemma Since_bounds:
  "\<bar>Since w t\<bar> \<le> \<bar>now w - t\<bar>" "\<bar>Since w t\<bar> \<le> 2 ^ 63"
  "a \<le> \<bar>now w - t\<bar> \<Longrightarrow> a \<le> 2 ^ 63 - 1 \<Longrightarrow> a \<le> \<bar>Since w t\<bar>"
  by (auto simp: Since_def Let_def maxDuration_def minDuration_def)

subsection \<open>The verdict at the threshold\<close>

lemma verdict_expired:
  assumes "(T + 1) * Second \<le> \<bar>now w - t\<bar>" and "T + 1 \<le> 9223372036"
  shows "float64 (of_int T) < \<bar>Seconds (Since w t)\<bar>"
proof -
  have "(T + 1) * Second \<le> 2 ^ 63 - 1" using assms(2) by (simp add: Second_def)
  with assms(1) have "(T + 1) * Second \<le> \<bar>Since w t\<bar>" by (rule Since_bounds(3))
  then show ?thesis using Since_bounds(2) by (rule expired_from_next_second)
qed



text \<open>The sweep over the example registry, when the store opens and enumerates.\<close>

lemma example_sweep:
  assumes "cryptoAPINameToStore (cryptoAPIFlagPhysicalStoreName cfg) = Inr system_scope"
    and "Key cfg system_scope = root_path"
    and "fs (OpOpenKey (HiveKey LOCAL_MACHINE) root_path) = None"
    and "fs (OpReadSubKeyNames root_store) = None"
  shows "snd (cleanCertsCryptoAPI cfg (example_world st fs t)) =
    cleanCerts_loop cfg root_store (map fst st)
      (called (OpReadSubKeyNames root_store)
         (called (OpOpenKey (HiveKey LOCAL_MACHINE) root_path) (example_world st fs t)))"
  using assms
  by (simp add: cleanCertsCryptoAPI_def OpenKey_def ReadSubKeyNames_def root_store_def)


lemma owned_key_simps [simp]:
  "marker (owned_key t) = Some 1" "modTime (owned_key t) = t"
  by (simp_all add: owned_key_def marker_def cryptoAPIMagicName_def)

lemma bad_scope:
  "cryptoAPINameToStore (cryptoAPIFlagPhysicalStoreName bad_cfg) =
     Inl ''invalid choice for physical store, consider: current-user, system, enterprise, group-policy''"
  by (simp add: bad_cfg_def cryptoAPINameToStore_def cryptoAPIStores_def)

lemma ReadSubKeyNames_world:
  "snd (ReadSubKeyNames k w) = called (OpReadSubKeyNames k) w"
  by (simp add: ReadSubKeyNames_def Let_def split: option.splits handle.splits)

subsection \<open>The sweep over a whole store\<close>

lemma check_stat_fails:
  assumes o: "fst (OpenKey k n w) = Inr ck"
    and g: "fst (GetIntegerValue ck cryptoAPIMagicName (snd (OpenKey k n w))) = Inr 1"
    and s: "fst (Stat ck (snd (GetIntegerValue ck cryptoAPIMagicName (snd (OpenKey k n w)))))
              = Inl err"
  shows "checkCertExpiredCryptoAPI cfg k n w =
    (Inl (''Couldn't read metadata for cert registry key: '' @ err),
     called (OpStat ck) (called (OpGetIntegerValue ck cryptoAPIMagicName)
       (called (OpOpenKey k n) w)))"
proof -
  let ?w1 = "called (OpOpenKey k n) w"
  let ?w2 = "called (OpGetIntegerValue ck cryptoAPIMagicName) ?w1"
  let ?w3 = "called (OpStat ck) ?w2"
  from o have o': "OpenKey k n w = (Inr ck, ?w1)"
    using OpenKey_world [of k n w] by (cases "OpenKey k n w") simp
  with g have g': "GetIntegerValue ck cryptoAPIMagicName ?w1 = (Inr 1, ?w2)"
    using GetIntegerValue_world [of ck cryptoAPIMagicName ?w1]
    by (cases "GetIntegerValue ck cryptoAPIMagicName ?w1") simp
  with s o' have s': "Stat ck ?w2 = (Inl err, ?w3)"
    using Stat_world [of ck ?w2] by (cases "Stat ck ?w2") simp
  show ?thesis
    by (simp add: checkCertExpiredCryptoAPI_def o' g' s' cryptoAPIMagicValue_def Sprintf_one)
qed

lemma judged_expired_now:
  "now w' = now w \<Longrightarrow> judged_expired cfg w' e = judged_expired cfg w e"
  by (simp add: judged_expired_def Since_def)

text \<open>The answer of the check for a key that exists, when none of its calls is refused.\<close>

lemma check_result:
  assumes key: "lookup_key w h p n = Some e" and ok: "unrefused w h p n"
  shows "fst (checkCertExpiredCryptoAPI cfg (StoreKey h p) n w) = Inr (judged_expired cfg w e)"
proof (cases "marker e = Some 1")
  case True
  have "checkCertExpiredCryptoAPI cfg (StoreKey h p) n w =
    (Inr (float64 (of_int (certExpirePeriod cfg)) < \<bar>Seconds (Since w (modTime e))\<bar>),
     called (OpStat (CertKey h p n))
       (called (OpGetIntegerValue (CertKey h p n) cryptoAPIMagicName)
          (called (OpOpenKey (StoreKey h p) n) w)))"
    using key True ok by (intro check_verdict) (simp_all add: unrefused_def)
  then show ?thesis using True by (simp add: judged_expired_def)
next
  case False
  have "fst (checkCertExpiredCryptoAPI cfg (StoreKey h p) n w) \<noteq> Inr True"
    using check_expired_owned [of cfg "StoreKey h p" n w] key False by auto
  moreover have "\<exists>b. fst (checkCertExpiredCryptoAPI cfg (StoreKey h p) n w) = Inr b"
  proof -
    let ?w1 = "called (OpOpenKey (StoreKey h p) n) w"
    have o: "OpenKey (StoreKey h p) n w = (Inr (CertKey h p n), ?w1)"
      using key ok by (simp add: OpenKey_def unrefused_def)
    obtain r w2 where g: "GetIntegerValue (CertKey h p n) cryptoAPIMagicName ?w1 = (r, w2)"
      by (cases "GetIntegerValue (CertKey h p n) cryptoAPIMagicName ?w1")
    show ?thesis
    proof (cases r)
      case (Inl err)
      with o g show ?thesis by (auto simp: checkCertExpiredCryptoAPI_def)
    next
      case (Inr v)
      then have "fst (GetIntegerValue (CertKey h p n) cryptoAPIMagicName ?w1) = Inr v"
        using g by simp
      then have "marker e = Some v" unfolding GetIntegerValue_Inr using key by simp
      with False have "v \<noteq> cryptoAPIMagicValue" by (auto simp: cryptoAPIMagicValue_def)
      with o g Inr show ?thesis by (auto simp: checkCertExpiredCryptoAPI_def)
    qed
  qed
  ultimately show ?thesis using False by (auto simp: judged_expired_def)
qed

text \<open>One turn of the loop, by the results of its two calls.\<close>

lemma loop_Cons:
  "cleanCerts_loop cfg k (n # ns) w =
     (case fst (checkCertExpiredCryptoAPI cfg k n w) of
        Inl err \<Rightarrow>
          Errorf ''Couldn't check if cert is expired: %s'' [err]
            (snd (checkCertExpiredCryptoAPI cfg k n w))
      | Inr expired \<Rightarrow>
          if expired then
            (case fst (DeleteKey k n (snd (checkCertExpiredCryptoAPI cfg k n w))) of
               Inl err \<Rightarrow>
                 cleanCerts_loop cfg k ns
                   (Errorf ''Coudn't delete expired cert: %s'' [err]
                      (snd (DeleteKey k n (snd (checkCertExpiredCryptoAPI cfg k n w)))))
             | Inr u \<Rightarrow>
                 cleanCerts_loop cfg k ns
                   (snd (DeleteKey k n (snd (checkCertExpiredCryptoAPI cfg k n w)))))
          else cleanCerts_loop cfg k ns (snd (checkCertExpiredCryptoAPI cfg k n w)))"
  by (simp add: split_beta split: sum.splits prod.splits)

lemma loop_frame:
  "faults (cleanCerts_loop cfg k ns w) = faults w \<and> now (cleanCerts_loop cfg k ns w) = now w"
proof (induction ns arbitrary: w)
  case Nil
  show ?case by simp
next
  case (Cons n ns)
  show ?case
    unfolding loop_Cons
    by (simp add: Cons.IH check_frame DeleteKey_frame split: sum.splits)
qed


lemma unrefused_faults: "faults w' = faults w \<Longrightarrow> unrefused w' h p n = unrefused w h p n"
  by (simp add: unrefused_def)

text \<open>
  The loop over distinct names that all exist, none of whose calls is refused: it
  deletes exactly the enumerated keys that are judged expired, and logs nothing.
\<close>

lemma loop_result:
  assumes "distinct ns"
    and "\<forall>n \<in> set ns. lookup_key w h p n \<noteq> None \<and> unrefused w h p n"
  shows "lookup_key (cleanCerts_loop cfg (StoreKey h p) ns w) h p m =
      (case lookup_key w h p m of
         None \<Rightarrow> None
       | Some e \<Rightarrow> if m \<in> set ns \<and> judged_expired cfg w e then None else Some e)
    \<and> logs (cleanCerts_loop cfg (StoreKey h p) ns w) = logs w"
  using assms
proof (induction ns arbitrary: w)
  case Nil
  show ?case by (simp split: option.splits)
next
  case (Cons n ns)
  let ?c = "checkCertExpiredCryptoAPI cfg (StoreKey h p) n w"
  let ?w1 = "snd ?c"
  from Cons.prems obtain e where key: "lookup_key w h p n = Some e" and ok: "unrefused w h p n"
    by auto
  have verdict: "fst ?c = Inr (judged_expired cfg w e)" using key ok by (rule check_result)
  have w1: "lookup_key ?w1 = lookup_key w" "faults ?w1 = faults w" "now ?w1 = now w"
    "logs ?w1 = logs w"
    by (simp_all add: check_frame)
  have n: "n \<notin> set ns" "distinct ns" using Cons.prems(1) by simp_all
  show ?case
  proof (cases "judged_expired cfg w e")
    case True
    let ?d = "DeleteKey (StoreKey h p) n ?w1"
    let ?w2 = "snd ?d"
    have "lookup_key ?w1 h p n = Some e" using key w1 by simp
    moreover have "faults ?w1 (OpDeleteKey (StoreKey h p) n) = None"
      using ok w1 by (simp add: unrefused_def)
    ultimately have d: "fst ?d = Inr ()" by (rule DeleteKey_ok)
    have look: "lookup_key ?w2 h p m' = (if m' = n then None else lookup_key w h p m')" for m'
      using DeleteKey_lookup [of "StoreKey h p" n ?w1 h p m'] d w1 by auto
    have frame: "faults ?w2 = faults w" "now ?w2 = now w" "logs ?w2 = logs w"
      using DeleteKey_frame [of "StoreKey h p" n ?w1] w1 by simp_all
    have un: "unrefused ?w2 h p n' = unrefused w h p n'" for n'
      using frame(1) by (rule unrefused_faults)
    have pre: "\<forall>n' \<in> set ns. lookup_key ?w2 h p n' \<noteq> None \<and> unrefused ?w2 h p n'"
      using Cons.prems(2) n(1) by (auto simp: look un)
    note IH = Cons.IH [OF n(2) pre]
    have je: "judged_expired cfg ?w2 e' = judged_expired cfg w e'" for e'
      using frame(2) by (rule judged_expired_now)
    have step: "cleanCerts_loop cfg (StoreKey h p) (n # ns) w =
        cleanCerts_loop cfg (StoreKey h p) ns ?w2"
      unfolding loop_Cons using verdict True d by simp
    show ?thesis
      unfolding step using IH key True n(1)
      by (auto simp: look frame je split: option.splits)
  next
    case False
    have un: "unrefused ?w1 h p n' = unrefused w h p n'" for n'
      using w1(2) by (rule unrefused_faults)
    have pre: "\<forall>n' \<in> set ns. lookup_key ?w1 h p n' \<noteq> None \<and> unrefused ?w1 h p n'"
      using Cons.prems(2) by (auto simp: w1(1) un)
    note IH = Cons.IH [OF n(2) pre]
    have je: "judged_expired cfg ?w1 e' = judged_expired cfg w e'" for e'
      using w1(3) by (rule judged_expired_now)
    have step: "cleanCerts_loop cfg (StoreKey h p) (n # ns) w =
        cleanCerts_loop cfg (StoreKey h p) ns ?w1"
      unfolding loop_Cons using verdict False by simp
    show ?thesis
      unfolding step using IH key False n(1)
      by (auto simp: w1 je split: option.splits)
  qed
qed


lemma DeleteKey_fails:
  "fst (DeleteKey k n w) = Inl err \<Longrightarrow> registry (snd (DeleteKey k n w)) = registry w"
  by (auto simp: DeleteKey_def Let_def split: option.splits handle.splits)

lemma judged_expired_owned:
  "judged_expired cfg w (owned_key t) =
     (float64 (of_int (certExpirePeriod cfg)) < \<bar>Seconds (Since w t)\<bar>)"
  by (simp add: judged_expired_def)

lemma lookup_key_registry: "registry w' = registry w \<Longrightarrow> lookup_key w' = lookup_key w"
  by (simp add: lookup_key_def fun_eq_iff)

section \<open>The claims\<close>

text \<open>
  C3.  A sub-container whose marker value is absent, or is present but is not the
  integer 1, is still in the store, unchanged, after the sweep: for every configuration,
  every registry, every set of refused calls, every clock and every last-write time.
\<close>

theorem unowned_never_deleted:
  assumes "lookup_key w h p n = Some e" and "marker e \<noteq> Some 1"
  shows "lookup_key (snd (cleanCertsCryptoAPI cfg w)) h p n = Some e"
  using assms by (rule clean_keeps_unowned)

theorem unowned_never_deleted_witness:
  "lookup_key (example_world [(''AA'', foreign_key 0), (''BB'', other_marker_key 0)] Map.empty (365 * day))
      LOCAL_MACHINE root_path ''BB'' = Some (other_marker_key 0)
   \<and> marker (other_marker_key 0) \<noteq> Some 1
   \<and> lookup_key
        (snd (cleanCertsCryptoAPI example_cfg
           (example_world [(''AA'', foreign_key 0), (''BB'', other_marker_key 0)] Map.empty (365 * day))))
        LOCAL_MACHINE root_path ''BB'' = Some (other_marker_key 0)"
proof -
  let ?w = "example_world [(''AA'', foreign_key 0), (''BB'', other_marker_key 0)] Map.empty (365 * day)"
  have a: "lookup_key ?w LOCAL_MACHINE root_path ''BB'' = Some (other_marker_key 0)"
    by (simp add: lookup_key_def)
  have b: "marker (other_marker_key 0) \<noteq> Some 1"
    by (simp add: marker_def other_marker_key_def cryptoAPIMagicName_def)
  from a b unowned_never_deleted [OF a b, of example_cfg] show ?thesis by simp
qed

text \<open>
  C6.  Injection creates (or opens) exactly one sub-container, and its name is the
  upper-case hexadecimal rendering of the SHA-1 digest of the certificate bytes, which
  is what the code's lower-case rendering followed by \<open>ToUpper\<close> produces.  Injecting the
  same bytes again uses the same name and adds no further sub-container.
\<close>

theorem entry_named_by_fingerprint:
  fixes sha1_Sum :: "byte list \<Rightarrow> byte list" and der :: "byte list"
    and cfg :: config and w :: world
  defines "name \<equiv> upper_hex (sha1_Sum der)"
    and "w1 \<equiv> snd (injectCertCryptoAPI sha1_Sum cfg der w)"
  defines "w2 \<equiv> snd (injectCertCryptoAPI sha1_Sum cfg der w1)"
  assumes scope: "cryptoAPINameToStore (cryptoAPIFlagPhysicalStoreName cfg) = Inr store"
    and len: "length der \<le> 4294967295"
    and reg: "registry w (Base store, Key cfg store) = Some st"
    and nofault: "faults w = Map.empty"
  shows "ToUpper (EncodeToString (sha1_Sum der)) = name
    \<and> created (calls w w1) = [name]
    \<and> lookup_key w1 (Base store) (Key cfg store) name \<noteq> None
    \<and> created (calls w1 w2) = [name]
    \<and> (\<exists>st1 st2. registry w1 (Base store, Key cfg store) = Some st1
          \<and> registry w2 (Base store, Key cfg store) = Some st2
          \<and> map fst st2 = map fst st1)"
proof -
  have n: "ToUpper (EncodeToString (sha1_Sum der)) = name"
    by (simp add: name_def ToUpper_EncodeToString)
  have nf: "\<forall>op. op \<noteq> OpDeleteValue (CertKey (Base store) (Key cfg store)
                  (ToUpper (EncodeToString (sha1_Sum der)))) cryptoAPIMagicName
            \<longrightarrow> faults w op = None"
    by (simp add: nofault)
  define e1 where "e1 =
      \<lparr>vals = (case map_of st name of None \<Rightarrow> Map.empty | Some e \<Rightarrow> vals e)
         (cryptoAPIMagicName \<mapsto> REG_DWORD 1,
          ''Blob'' \<mapsto> REG_BINARY (le32 0x20 @ le32 1 @ le32 (of_nat (length der)) @ der)),
       modTime = now w\<rparr>"
  define st1 where "st1 = AList.update name e1 st"
  note first =
    inject_success [where sha1_Sum = sha1_Sum and der = der, OF scope len reg nf, unfolded n]
  have r1: "registry w1 (Base store, Key cfg store) = Some st1"
    and f1: "faults w1 = Map.empty"
    and c1: "created (calls w w1) = [name]"
    unfolding w1_def first st1_def e1_def by (simp_all add: nofault)
  have nf1: "\<forall>op. op \<noteq> OpDeleteValue (CertKey (Base store) (Key cfg store)
                  (ToUpper (EncodeToString (sha1_Sum der)))) cryptoAPIMagicName
            \<longrightarrow> faults w1 op = None"
    by (simp add: f1)
  note second =
    inject_success [where sha1_Sum = sha1_Sum and der = der, OF scope len r1 nf1, unfolded n]
  have r2: "\<exists>e2. registry w2 (Base store, Key cfg store) = Some (AList.update name e2 st1)"
    and c2: "created (calls w1 w2) = [name]"
    unfolding w2_def second by (simp, blast) simp
  have present: "map_of st1 name = Some e1"
    by (simp add: st1_def update_conv')
  then have "name \<in> fst ` set st1" by (rule map_of_SomeD [THEN image_eqI [rotated]]) simp
  then have keys: "map fst (AList.update name e2 st1) = map fst st1" for e2
    by (simp add: update_keys)
  have "lookup_key w1 (Base store) (Key cfg store) name \<noteq> None"
    using r1 present by simp
  then show ?thesis using n c1 c2 r1 r2 keys by auto
qed


text \<open>
  C7.  The blob that injection stores is the encoding of the one-record blob with tag
  0x20 and the certificate bytes as payload: a 12-byte header followed by the bytes,
  unmodified, and it decodes to that single record and nothing else.
\<close>

theorem blob_is_single_record:
  fixes sha1_Sum :: "byte list \<Rightarrow> byte list" and der :: "byte list"
    and cfg :: config and w :: world
  defines "w1 \<equiv> snd (injectCertCryptoAPI sha1_Sum cfg der w)"
  assumes scope: "cryptoAPINameToStore (cryptoAPIFlagPhysicalStoreName cfg) = Inr store"
    and len: "length der \<le> 4294967295"
    and reg: "registry w (Base store, Key cfg store) = Some st"
    and nofault: "faults w = Map.empty"
  shows "\<exists>e bs. lookup_key w1 (Base store) (Key cfg store)
                   (ToUpper (EncodeToString (sha1_Sum der))) = Some e
           \<and> vals e ''Blob'' = Some (REG_BINARY bs)
           \<and> Marshal [(0x20, der)] = Inr bs
           \<and> bs = le32 0x20 @ le32 1 @ le32 (of_nat (length der)) @ der
           \<and> Unmarshal bs = Inr [(0x20, der)]"
proof -
  have nf: "\<forall>op. op \<noteq> OpDeleteValue (CertKey (Base store) (Key cfg store)
                  (ToUpper (EncodeToString (sha1_Sum der)))) cryptoAPIMagicName
            \<longrightarrow> faults w op = None"
    by (simp add: nofault)
  note run = inject_success [where sha1_Sum = sha1_Sum and der = der, OF scope len reg nf]
  show ?thesis
    unfolding w1_def run
    using len by (simp add: update_conv' Unmarshal_single)
qed

theorem entry_named_by_fingerprint_witness:
  "cryptoAPINameToStore (cryptoAPIFlagPhysicalStoreName example_cfg) = Inr system_scope
   \<and> length example_der \<le> 4294967295
   \<and> registry (example_world [] Map.empty day) (Base system_scope, Key example_cfg system_scope)
        = Some []
   \<and> faults (example_world [] Map.empty day) = Map.empty
   \<and> upper_hex (example_digest example_der) = example_name
   \<and> created (calls (example_world [] Map.empty day)
         (snd (injectCertCryptoAPI example_digest example_cfg example_der
                (example_world [] Map.empty day)))) = [example_name]"
proof -
  let ?w = "example_world [] Map.empty day"
  have len: "length example_der \<le> 4294967295" by (simp add: example_der_def)
  have reg: "registry ?w (Base system_scope, Key example_cfg system_scope) = Some []" by simp
  have nofault: "faults ?w = Map.empty" by simp
  have name: "upper_hex (example_digest example_der) = example_name"
    using example_name_eq by (simp add: ToUpper_EncodeToString)
  from entry_named_by_fingerprint [OF example_scope len reg nofault, of example_digest]
  show ?thesis using example_scope len reg nofault name by simp
qed


theorem blob_is_single_record_witness:
  "cryptoAPINameToStore (cryptoAPIFlagPhysicalStoreName example_cfg) = Inr system_scope
   \<and> length example_der \<le> 4294967295
   \<and> registry (example_world [] Map.empty day) (Base system_scope, Key example_cfg system_scope)
        = Some []
   \<and> faults (example_world [] Map.empty day) = Map.empty
   \<and> (\<exists>e. lookup_key
              (snd (injectCertCryptoAPI example_digest example_cfg example_der
                      (example_world [] Map.empty day)))
              LOCAL_MACHINE root_path example_name = Some e
          \<and> vals e ''Blob'' =
               Some (REG_BINARY ([0x20, 0, 0, 0, 1, 0, 0, 0, 4, 0, 0, 0] @ example_der)))"
proof -
  let ?w = "example_world [] Map.empty day"
  have len: "length example_der \<le> 4294967295" by (simp add: example_der_def)
  have reg: "registry ?w (Base system_scope, Key example_cfg system_scope) = Some []" by simp
  have nofault: "faults ?w = Map.empty" by simp
  have hdr: "le32 0x20 @ le32 1 @ le32 (of_nat (length example_der)) =
      [0x20, 0, 0, 0, 1, 0, 0, 0, 4, 0, 0, 0]"
    by (simp add: le32_def example_der_def)
  from blob_is_single_record [OF example_scope len reg nofault, of example_digest]
  show ?thesis using example_scope len reg nofault hdr by (auto simp: example_name_eq)
qed

text \<open>
  C8.  On an injection whose other registry calls succeed, the calls made are, in this
  order: open the store, create or open the sub-container, delete the marker value,
  write the marker value (named \<open>Namecoin\<close>, the DWORD 1), write the value \<open>Blob\<close>.
  Whatever the deletion returns (refused by the system, or no such value), nothing is
  logged and the sub-container ends up with the marker 1 and the blob.
\<close>

theorem marker_deleted_then_written:
  fixes sha1_Sum :: "byte list \<Rightarrow> byte list" and der :: "byte list"
    and cfg :: config and w :: world and store :: Store
  defines "certStoreKey \<equiv> StoreKey (Base store) (Key cfg store)"
    and "certKey \<equiv> CertKey (Base store) (Key cfg store) (ToUpper (EncodeToString (sha1_Sum der)))"
    and "blobBytes \<equiv> le32 0x20 @ le32 1 @ le32 (of_nat (length der)) @ der"
    and "w1 \<equiv> snd (injectCertCryptoAPI sha1_Sum cfg der w)"
  assumes scope: "cryptoAPINameToStore (cryptoAPIFlagPhysicalStoreName cfg) = Inr store"
    and len: "length der \<le> 4294967295"
    and reg: "registry w (Base store, Key cfg store) = Some st"
    and nofault: "\<forall>op. op \<noteq> OpDeleteValue certKey cryptoAPIMagicName \<longrightarrow> faults w op = None"
  shows "calls w w1 =
           [OpOpenKey (HiveKey (Base store)) (Key cfg store),
            OpCreateKey certStoreKey (ToUpper (EncodeToString (sha1_Sum der))),
            OpDeleteValue certKey cryptoAPIMagicName,
            OpSetDWordValue certKey cryptoAPIMagicName 1,
            OpSetBinaryValue certKey ''Blob'' blobBytes]
    \<and> cryptoAPIMagicName = ''Namecoin''
    \<and> logs w1 = logs w
    \<and> (\<exists>e. lookup_key w1 (Base store) (Key cfg store) (ToUpper (EncodeToString (sha1_Sum der)))
               = Some e
           \<and> vals e cryptoAPIMagicName = Some (REG_DWORD 1)
           \<and> vals e ''Blob'' = Some (REG_BINARY blobBytes)
           \<and> modTime e = now w)"
proof -
  note run = inject_success [where sha1_Sum = sha1_Sum and der = der, OF scope len reg
      nofault [unfolded certKey_def]]
  show ?thesis
    unfolding w1_def run certKey_def certStoreKey_def blobBytes_def
    by (simp add: update_conv' cryptoAPIMagicName_def)
qed

theorem marker_deleted_then_written_witness:
  "cryptoAPINameToStore (cryptoAPIFlagPhysicalStoreName example_cfg) = Inr system_scope
   \<and> length example_der \<le> 4294967295
   \<and> registry
        (example_world [(example_name, owned_key 0)]
           [OpDeleteValue (CertKey LOCAL_MACHINE root_path example_name) cryptoAPIMagicName
              \<mapsto> ''Access is denied.''] day)
        (Base system_scope, Key example_cfg system_scope) = Some [(example_name, owned_key 0)]
   \<and> faults
        (example_world [(example_name, owned_key 0)]
           [OpDeleteValue (CertKey LOCAL_MACHINE root_path example_name) cryptoAPIMagicName
              \<mapsto> ''Access is denied.''] day)
       = [OpDeleteValue (CertKey (Base system_scope) (Key example_cfg system_scope)
            (ToUpper (EncodeToString (example_digest example_der)))) cryptoAPIMagicName
            \<mapsto> ''Access is denied.'']
   \<and> fst (DeleteValue (CertKey LOCAL_MACHINE root_path example_name) cryptoAPIMagicName
          (example_world [(example_name, owned_key 0)]
             [OpDeleteValue (CertKey LOCAL_MACHINE root_path example_name) cryptoAPIMagicName
                \<mapsto> ''Access is denied.''] day)) = Inl ''Access is denied.''
   \<and> logs (snd (injectCertCryptoAPI example_digest example_cfg example_der
          (example_world [(example_name, owned_key 0)]
             [OpDeleteValue (CertKey LOCAL_MACHINE root_path example_name) cryptoAPIMagicName
                \<mapsto> ''Access is denied.''] day))) = []
   \<and> (\<exists>e. lookup_key
          (snd (injectCertCryptoAPI example_digest example_cfg example_der
            (example_world [(example_name, owned_key 0)]
               [OpDeleteValue (CertKey LOCAL_MACHINE root_path example_name) cryptoAPIMagicName
                  \<mapsto> ''Access is denied.''] day)))
          LOCAL_MACHINE root_path example_name = Some e
        \<and> vals e ''Namecoin'' = Some (REG_DWORD 1) \<and> modTime e = day)"
proof -
  let ?w = "example_world [(example_name, owned_key 0)]
             [OpDeleteValue (CertKey LOCAL_MACHINE root_path example_name) cryptoAPIMagicName
                \<mapsto> ''Access is denied.''] day"
  have len: "length example_der \<le> 4294967295" by (simp add: example_der_def)
  have reg: "registry ?w (Base system_scope, Key example_cfg system_scope)
      = Some [(example_name, owned_key 0)]" by simp
  have nofault: "\<forall>op. op \<noteq> OpDeleteValue (CertKey (Base system_scope) (Key example_cfg system_scope)
                   (ToUpper (EncodeToString (example_digest example_der)))) cryptoAPIMagicName
          \<longrightarrow> faults ?w op = None"
    by (simp add: example_name_eq)
  have del: "fst (DeleteValue (CertKey LOCAL_MACHINE root_path example_name) cryptoAPIMagicName ?w)
      = Inl ''Access is denied.''"
    by (simp add: DeleteValue_def)
  have only: "faults ?w =
      [OpDeleteValue (CertKey (Base system_scope) (Key example_cfg system_scope)
         (ToUpper (EncodeToString (example_digest example_der)))) cryptoAPIMagicName
         \<mapsto> ''Access is denied.'']"
    by (simp add: example_name_eq)
  from marker_deleted_then_written [where sha1_Sum = example_digest and der = example_der,
      OF example_scope len reg nofault]
  show ?thesis using example_scope len reg only del
    by (auto simp: example_name_eq cryptoAPIMagicName_def)
qed

text \<open>
  C10, as stated, fails on a byte sequence too long to encode: a certificate of
  \<open>2\<^sup>3\<^sup>2\<close> bytes is rejected before the registry is touched.
\<close>

theorem oversized_input_rejected:
  "length oversized = 4294967296
   \<and> injectCertCryptoAPI example_digest example_cfg oversized (example_world [] Map.empty day) =
       ((), (example_world [] Map.empty day)
              \<lparr>logs := [''Couldn't marshal cert blob: EncodingOverflow'']\<rparr>)"
  by (simp add: injectCertCryptoAPI_def example_scope length_oversized Errorf_def
      EncodingOverflow_def)

text \<open>
  C10, amended.  Every byte sequence of at most \<open>2\<^sup>3\<^sup>2 - 1\<close> bytes, the empty one
  included, is accepted when the scope is known, the store exists and no registry call is
  refused: nothing on the path inspects the bytes, nothing is logged, and the
  sub-container named by the upper-case hexadecimal digest of the bytes holds the marker
  and the encoded blob with the bytes as given.
\<close>

theorem encodable_bytes_accepted:
  fixes sha1_Sum :: "byte list \<Rightarrow> byte list" and der :: "byte list"
    and cfg :: config and w :: world
  defines "w1 \<equiv> snd (injectCertCryptoAPI sha1_Sum cfg der w)"
  assumes scope: "cryptoAPINameToStore (cryptoAPIFlagPhysicalStoreName cfg) = Inr store"
    and len: "length der \<le> 4294967295"
    and reg: "registry w (Base store, Key cfg store) = Some st"
    and nofault: "faults w = Map.empty"
  shows "logs w1 = logs w
    \<and> lookup_key w1 (Base store) (Key cfg store) (upper_hex (sha1_Sum der)) =
        Some \<lparr>vals = (case map_of st (upper_hex (sha1_Sum der)) of
                         None \<Rightarrow> Map.empty | Some e \<Rightarrow> vals e)
                 (cryptoAPIMagicName \<mapsto> REG_DWORD 1,
                  ''Blob'' \<mapsto> REG_BINARY (le32 0x20 @ le32 1 @ le32 (of_nat (length der)) @ der)),
              modTime = now w\<rparr>"
proof -
  have nf: "\<forall>op. op \<noteq> OpDeleteValue (CertKey (Base store) (Key cfg store)
                  (ToUpper (EncodeToString (sha1_Sum der)))) cryptoAPIMagicName
            \<longrightarrow> faults w op = None"
    by (simp add: nofault)
  note run = inject_success [where sha1_Sum = sha1_Sum and der = der, OF scope len reg nf]
  show ?thesis
    unfolding w1_def run by (simp add: update_conv' ToUpper_EncodeToString)
qed

theorem encodable_bytes_accepted_witness:
  "cryptoAPINameToStore (cryptoAPIFlagPhysicalStoreName example_cfg) = Inr system_scope
   \<and> length ([] :: byte list) \<le> 4294967295
   \<and> registry (example_world [] Map.empty day) (Base system_scope, Key example_cfg system_scope)
        = Some []
   \<and> faults (example_world [] Map.empty day) = Map.empty
   \<and> logs (snd (injectCertCryptoAPI example_digest example_cfg [] (example_world [] Map.empty day)))
        = []
   \<and> lookup_key
        (snd (injectCertCryptoAPI example_digest example_cfg [] (example_world [] Map.empty day)))
        LOCAL_MACHINE root_path ''0000000000000000000000000000000000000000'' =
       Some \<lparr>vals = [''Namecoin'' \<mapsto> REG_DWORD 1,
                     ''Blob'' \<mapsto> REG_BINARY [0x20, 0, 0, 0, 1, 0, 0, 0, 0, 0, 0, 0]],
             modTime = day\<rparr>"
proof -
  let ?w = "example_world [] Map.empty day"
  have len: "length ([] :: byte list) \<le> 4294967295" by simp
  have reg: "registry ?w (Base system_scope, Key example_cfg system_scope) = Some []" by simp
  have nofault: "faults ?w = Map.empty" by simp
  have name: "upper_hex (example_digest []) = ''0000000000000000000000000000000000000000''"
    by code_simp
  have hdr: "le32 0x20 @ le32 1 @ le32 0 = [0x20, 0, 0, 0, 1, 0, 0, 0, 0, 0, 0, 0]"
    by (simp add: le32_def)
  from encodable_bytes_accepted [OF example_scope len reg nofault, of example_digest]
  show ?thesis using example_scope len reg nofault
    by (simp add: name hdr cryptoAPIMagicName_def)
qed

text \<open>
  C1, as stated, fails: of two enumerated sub-containers, the first cannot be opened;
  the sweep logs that error and returns, and the second, although marked and a year
  old, is never opened and stays in the store.
\<close>

theorem sweep_aborts_on_open_failure:
  "trace (snd (cleanCertsCryptoAPI example_cfg
      (example_world [(''AA'', owned_key 0), (''BB'', owned_key 0)]
         [OpOpenKey root_store ''AA'' \<mapsto> ''Access is denied.''] (365 * day)))) =
     [OpOpenKey (HiveKey LOCAL_MACHINE) root_path, OpReadSubKeyNames root_store,
      OpOpenKey root_store ''AA'']
   \<and> logs (snd (cleanCertsCryptoAPI example_cfg
      (example_world [(''AA'', owned_key 0), (''BB'', owned_key 0)]
         [OpOpenKey root_store ''AA'' \<mapsto> ''Access is denied.''] (365 * day)))) =
     [''Couldn't check if cert is expired: Couldn't open cert registry key: Access is denied.'']
   \<and> lookup_key (snd (cleanCertsCryptoAPI example_cfg
      (example_world [(''AA'', owned_key 0), (''BB'', owned_key 0)]
         [OpOpenKey root_store ''AA'' \<mapsto> ''Access is denied.''] (365 * day))))
       LOCAL_MACHINE root_path ''BB'' = Some (owned_key 0)"
proof -
  let ?w = "example_world [(''AA'', owned_key 0), (''BB'', owned_key 0)]
         [OpOpenKey root_store ''AA'' \<mapsto> ''Access is denied.''] (365 * day)"
  let ?w2 = "called (OpReadSubKeyNames root_store) (called (OpOpenKey (HiveKey LOCAL_MACHINE) root_path) ?w)"
  have o: "OpenKey (HiveKey LOCAL_MACHINE) root_path ?w =
      (Inr root_store, called (OpOpenKey (HiveKey LOCAL_MACHINE) root_path) ?w)"
    by (simp add: OpenKey_def root_store_def)
  have r: "ReadSubKeyNames root_store (called (OpOpenKey (HiveKey LOCAL_MACHINE) root_path) ?w) =
      (Inr [''AA'', ''BB''], ?w2)"
    by (simp add: ReadSubKeyNames_def root_store_def)
  have "fst (OpenKey root_store ''AA'' ?w2) = Inl ''Access is denied.''"
    by (simp add: OpenKey_def)
  note c = check_open_fails [OF this, of example_cfg]
  have "snd (cleanCertsCryptoAPI example_cfg ?w) =
      Errorf ''Couldn't check if cert is expired: %s''
        [''Couldn't open cert registry key: Access is denied.'']
        (called (OpOpenKey root_store ''AA'') ?w2)"
    by (simp add: cleanCertsCryptoAPI_def example_scope o r c)
  then show ?thesis by (simp add: lookup_key_def)
qed

text \<open>
  C1, amended.  If the check of a sub-container reports an error, the sweep logs that
  error and stops: the outcome is the same as if no further names had been enumerated,
  the registry is unchanged, and the only registry calls made are those of the failed
  check.  The check reports an error when the sub-container cannot be opened, and when
  it opens and carries the marker 1 but its metadata cannot be read.  A failure to delete
  an expired sub-container, by contrast, is logged and the sweep goes on with the
  remaining names.
\<close>

theorem sweep_stops_at_failed_check:
  "(fst (checkCertExpiredCryptoAPI cfg k n w) = Inl err \<longrightarrow>
      cleanCerts_loop cfg k (n # rest) w = cleanCerts_loop cfg k [n] w
      \<and> registry (cleanCerts_loop cfg k (n # rest) w) = registry w
      \<and> logs (cleanCerts_loop cfg k (n # rest) w) =
          logs w @ [''Couldn't check if cert is expired: '' @ err]
      \<and> trace (cleanCerts_loop cfg k (n # rest) w) =
          trace (snd (checkCertExpiredCryptoAPI cfg k n w)))
   \<and> (fst (OpenKey k n w) = Inl err \<longrightarrow>
      cleanCerts_loop cfg k (n # rest) w =
        w\<lparr>trace := trace w @ [OpOpenKey k n],
          logs := logs w @
            [''Couldn't check if cert is expired: Couldn't open cert registry key: '' @ err]\<rparr>)
   \<and> (fst (OpenKey k n w) = Inr ck
        \<and> fst (GetIntegerValue ck cryptoAPIMagicName (snd (OpenKey k n w))) = Inr 1
        \<and> fst (Stat ck (snd (GetIntegerValue ck cryptoAPIMagicName (snd (OpenKey k n w)))))
            = Inl err \<longrightarrow>
      cleanCerts_loop cfg k (n # rest) w =
        w\<lparr>trace := trace w @ [OpOpenKey k n, OpGetIntegerValue ck cryptoAPIMagicName, OpStat ck],
          logs := logs w @
            [''Couldn't check if cert is expired: Couldn't read metadata for cert registry key: ''
               @ err]\<rparr>)
   \<and> (fst (checkCertExpiredCryptoAPI cfg k n w) = Inr True
        \<and> fst (DeleteKey k n (snd (checkCertExpiredCryptoAPI cfg k n w))) = Inl err \<longrightarrow>
      cleanCerts_loop cfg k (n # rest) w =
        cleanCerts_loop cfg k rest
          ((snd (DeleteKey k n (snd (checkCertExpiredCryptoAPI cfg k n w))))
             \<lparr>logs := logs w @ [''Coudn't delete expired cert: '' @ err]\<rparr>)
      \<and> registry (snd (DeleteKey k n (snd (checkCertExpiredCryptoAPI cfg k n w)))) = registry w)"
proof (intro conjI impI)
  assume a: "fst (checkCertExpiredCryptoAPI cfg k n w) = Inl err"
  then show "cleanCerts_loop cfg k (n # rest) w = cleanCerts_loop cfg k [n] w"
    and "registry (cleanCerts_loop cfg k (n # rest) w) = registry w"
    and "logs (cleanCerts_loop cfg k (n # rest) w) =
          logs w @ [''Couldn't check if cert is expired: '' @ err]"
    and "trace (cleanCerts_loop cfg k (n # rest) w) =
          trace (snd (checkCertExpiredCryptoAPI cfg k n w))"
    unfolding loop_Cons by (simp_all add: check_frame Sprintf_one)
next
  assume "fst (OpenKey k n w) = Inl err"
  from check_open_fails [OF this, of cfg]
  show "cleanCerts_loop cfg k (n # rest) w =
        w\<lparr>trace := trace w @ [OpOpenKey k n],
          logs := logs w @
            [''Couldn't check if cert is expired: Couldn't open cert registry key: '' @ err]\<rparr>"
    by (simp add: Errorf_def called_def Sprintf_one)
next
  assume a: "fst (OpenKey k n w) = Inr ck
        \<and> fst (GetIntegerValue ck cryptoAPIMagicName (snd (OpenKey k n w))) = Inr 1
        \<and> fst (Stat ck (snd (GetIntegerValue ck cryptoAPIMagicName (snd (OpenKey k n w)))))
            = Inl err"
  from check_stat_fails [of k n w ck err cfg] a
  show "cleanCerts_loop cfg k (n # rest) w =
        w\<lparr>trace := trace w @ [OpOpenKey k n, OpGetIntegerValue ck cryptoAPIMagicName, OpStat ck],
          logs := logs w @
            [''Couldn't check if cert is expired: Couldn't read metadata for cert registry key: ''
               @ err]\<rparr>"
    by (simp add: Errorf_def called_def Sprintf_one)
next
  assume a: "fst (checkCertExpiredCryptoAPI cfg k n w) = Inr True
        \<and> fst (DeleteKey k n (snd (checkCertExpiredCryptoAPI cfg k n w))) = Inl err"
  then show "cleanCerts_loop cfg k (n # rest) w =
        cleanCerts_loop cfg k rest
          ((snd (DeleteKey k n (snd (checkCertExpiredCryptoAPI cfg k n w))))
             \<lparr>logs := logs w @ [''Coudn't delete expired cert: '' @ err]\<rparr>)"
    unfolding loop_Cons by (simp add: Errorf_def Sprintf_one DeleteKey_frame check_frame)
  from a show "registry (snd (DeleteKey k n (snd (checkCertExpiredCryptoAPI cfg k n w))))
      = registry w"
    by (simp add: DeleteKey_fails check_frame)
qed


theorem sweep_stops_at_failed_check_witness:
  "fst (OpenKey root_store ''AA''
      (example_world [(''AA'', owned_key 0), (''BB'', owned_key 0)]
         [OpOpenKey root_store ''AA'' \<mapsto> ''Access is denied.''] (365 * day)))
     = Inl ''Access is denied.''
   \<and> cleanCerts_loop example_cfg root_store [''AA'', ''BB'']
       (example_world [(''AA'', owned_key 0), (''BB'', owned_key 0)]
         [OpOpenKey root_store ''AA'' \<mapsto> ''Access is denied.''] (365 * day))
     = (example_world [(''AA'', owned_key 0), (''BB'', owned_key 0)]
         [OpOpenKey root_store ''AA'' \<mapsto> ''Access is denied.''] (365 * day))
       \<lparr>trace := [OpOpenKey root_store ''AA''],
        logs := [''Couldn't check if cert is expired: Couldn't open cert registry key: Access is denied.'']\<rparr>
   \<and> fst (OpenKey root_store ''AA''
      (example_world [(''AA'', owned_key 0), (''BB'', owned_key 0)]
         [OpStat (CertKey LOCAL_MACHINE root_path ''AA'') \<mapsto> ''Access is denied.''] (365 * day)))
     = Inr (CertKey LOCAL_MACHINE root_path ''AA'')
   \<and> fst (GetIntegerValue (CertKey LOCAL_MACHINE root_path ''AA'') cryptoAPIMagicName
        (snd (OpenKey root_store ''AA''
          (example_world [(''AA'', owned_key 0), (''BB'', owned_key 0)]
             [OpStat (CertKey LOCAL_MACHINE root_path ''AA'') \<mapsto> ''Access is denied.'']
             (365 * day)))))
     = Inr 1
   \<and> fst (Stat (CertKey LOCAL_MACHINE root_path ''AA'')
        (snd (GetIntegerValue (CertKey LOCAL_MACHINE root_path ''AA'') cryptoAPIMagicName
          (snd (OpenKey root_store ''AA''
            (example_world [(''AA'', owned_key 0), (''BB'', owned_key 0)]
               [OpStat (CertKey LOCAL_MACHINE root_path ''AA'') \<mapsto> ''Access is denied.'']
               (365 * day)))))))
     = Inl ''Access is denied.''
   \<and> cleanCerts_loop example_cfg root_store [''AA'', ''BB'']
       (example_world [(''AA'', owned_key 0), (''BB'', owned_key 0)]
         [OpStat (CertKey LOCAL_MACHINE root_path ''AA'') \<mapsto> ''Access is denied.''] (365 * day))
     = (example_world [(''AA'', owned_key 0), (''BB'', owned_key 0)]
         [OpStat (CertKey LOCAL_MACHINE root_path ''AA'') \<mapsto> ''Access is denied.''] (365 * day))
       \<lparr>trace := [OpOpenKey root_store ''AA'',
                  OpGetIntegerValue (CertKey LOCAL_MACHINE root_path ''AA'') cryptoAPIMagicName,
                  OpStat (CertKey LOCAL_MACHINE root_path ''AA'')],
        logs := [''Couldn't check if cert is expired: Couldn't read metadata for cert registry key: Access is denied.'']\<rparr>
   \<and> fst (checkCertExpiredCryptoAPI example_cfg root_store ''AA''
        (example_world [(''AA'', owned_key 0), (''BB'', owned_key 0)]
           [OpDeleteKey root_store ''AA'' \<mapsto> ''Access is denied.''] (365 * day)))
     = Inr True
   \<and> fst (DeleteKey root_store ''AA''
        (snd (checkCertExpiredCryptoAPI example_cfg root_store ''AA''
          (example_world [(''AA'', owned_key 0), (''BB'', owned_key 0)]
             [OpDeleteKey root_store ''AA'' \<mapsto> ''Access is denied.''] (365 * day)))))
     = Inl ''Access is denied.''
   \<and> logs (cleanCerts_loop example_cfg root_store [''AA'', ''BB'']
        (example_world [(''AA'', owned_key 0), (''BB'', owned_key 0)]
           [OpDeleteKey root_store ''AA'' \<mapsto> ''Access is denied.''] (365 * day)))
     = [''Coudn't delete expired cert: Access is denied.'']
   \<and> lookup_key (cleanCerts_loop example_cfg root_store [''AA'', ''BB'']
        (example_world [(''AA'', owned_key 0), (''BB'', owned_key 0)]
           [OpDeleteKey root_store ''AA'' \<mapsto> ''Access is denied.''] (365 * day)))
        LOCAL_MACHINE root_path ''AA'' = Some (owned_key 0)
   \<and> lookup_key (cleanCerts_loop example_cfg root_store [''AA'', ''BB'']
        (example_world [(''AA'', owned_key 0), (''BB'', owned_key 0)]
           [OpDeleteKey root_store ''AA'' \<mapsto> ''Access is denied.''] (365 * day)))
        LOCAL_MACHINE root_path ''BB'' = None"
proof -
  let ?st = "[(''AA'', owned_key 0), (''BB'', owned_key 0)]"
  let ?ck = "CertKey LOCAL_MACHINE root_path ''AA''"
  let ?wB = "example_world ?st [OpOpenKey root_store ''AA'' \<mapsto> ''Access is denied.''] (365 * day)"
  let ?wC = "example_world ?st [OpStat ?ck \<mapsto> ''Access is denied.''] (365 * day)"
  let ?wD = "example_world ?st [OpDeleteKey root_store ''AA'' \<mapsto> ''Access is denied.''] (365 * day)"
  \<comment> \<open>the sub-container cannot be opened\<close>
  have b1: "fst (OpenKey root_store ''AA'' ?wB) = Inl ''Access is denied.''"
    by (simp add: OpenKey_def)
  have b2: "cleanCerts_loop example_cfg root_store [''AA'', ''BB''] ?wB =
      ?wB\<lparr>trace := [OpOpenKey root_store ''AA''],
        logs := [''Couldn't check if cert is expired: Couldn't open cert registry key: Access is denied.'']\<rparr>"
    using sweep_stops_at_failed_check [of example_cfg root_store "''AA''" ?wB
        "''Access is denied.''" "[''BB'']", THEN conjunct2, THEN conjunct1, rule_format, OF b1]
    by (simp del: cleanCerts_loop.simps)
  \<comment> \<open>its metadata cannot be read\<close>
  have c1: "fst (OpenKey root_store ''AA'' ?wC) = Inr ?ck"
    by (simp add: OpenKey_def root_store_def)
  have c2: "fst (GetIntegerValue ?ck cryptoAPIMagicName (snd (OpenKey root_store ''AA'' ?wC)))
      = Inr 1"
    unfolding OpenKey_world GetIntegerValue_Inr by simp
  have c3: "fst (Stat ?ck (snd (GetIntegerValue ?ck cryptoAPIMagicName
      (snd (OpenKey root_store ''AA'' ?wC))))) = Inl ''Access is denied.''"
    by (simp add: OpenKey_world GetIntegerValue_world Stat_def)
  have c4: "cleanCerts_loop example_cfg root_store [''AA'', ''BB''] ?wC =
      ?wC\<lparr>trace := [OpOpenKey root_store ''AA'', OpGetIntegerValue ?ck cryptoAPIMagicName,
                  OpStat ?ck],
        logs := [''Couldn't check if cert is expired: Couldn't read metadata for cert registry key: Access is denied.'']\<rparr>"
    using sweep_stops_at_failed_check [of example_cfg root_store "''AA''" ?wC
        "''Access is denied.''" "[''BB'']" ?ck, THEN conjunct2, THEN conjunct2, THEN conjunct1,
        rule_format, OF conjI [OF c1 conjI [OF c2 c3]]]
    by (simp del: cleanCerts_loop.simps)
  \<comment> \<open>an expired sub-container cannot be deleted\<close>
  have old: "float64 (of_int (certExpirePeriod example_cfg)) < \<bar>Seconds (Since w 0)\<bar>"
    if "now w = 365 * day" for w
    by (rule verdict_expired) (simp_all add: that example_cfg_def Second_def day_def)
  have kD: "lookup_key ?wD LOCAL_MACHINE root_path ''AA'' = Some (owned_key 0)"
    by (simp add: lookup_key_def)
  have d1: "fst (checkCertExpiredCryptoAPI example_cfg root_store ''AA'' ?wD) = Inr True"
  proof -
    have "fst (checkCertExpiredCryptoAPI example_cfg (StoreKey LOCAL_MACHINE root_path) ''AA'' ?wD)
        = Inr (float64 (of_int (certExpirePeriod example_cfg))
                < \<bar>Seconds (Since ?wD (modTime (owned_key 0)))\<bar>)"
      by (subst check_verdict [OF kD]) (simp_all add: root_store_def)
    then show ?thesis using old [of ?wD] by (simp add: root_store_def)
  qed
  let ?w1 = "snd (checkCertExpiredCryptoAPI example_cfg root_store ''AA'' ?wD)"
  have d2: "fst (DeleteKey root_store ''AA'' ?w1) = Inl ''Access is denied.''"
    by (simp add: DeleteKey_def check_frame)
  note t = sweep_stops_at_failed_check [of example_cfg root_store "''AA''" ?wD
        "''Access is denied.''" "[''BB'']", THEN conjunct2, THEN conjunct2, THEN conjunct2,
        rule_format, OF conjI [OF d1 d2]]
  define w2 where "w2 = (snd (DeleteKey root_store ''AA'' ?w1))
      \<lparr>logs := logs ?wD @ [''Coudn't delete expired cert: '' @ ''Access is denied.'']\<rparr>"
  have step: "cleanCerts_loop example_cfg root_store [''AA'', ''BB''] ?wD =
      cleanCerts_loop example_cfg root_store [''BB''] w2"
    using t [THEN conjunct1] by (simp only: w2_def)
  have frame: "registry w2 = registry ?wD" "faults w2 = faults ?wD" "now w2 = 365 * day"
    "logs w2 = [''Coudn't delete expired cert: Access is denied.'']"
    using t [THEN conjunct2]
    by (simp_all add: w2_def DeleteKey_frame check_frame)
  have look: "lookup_key w2 = lookup_key ?wD" using frame(1) by (rule lookup_key_registry)
  have pre: "\<forall>n \<in> set [''BB'']. lookup_key w2 LOCAL_MACHINE root_path n \<noteq> None
      \<and> unrefused w2 LOCAL_MACHINE root_path n"
    by (simp add: look unrefused_def frame root_store_def lookup_key_def)
  have je: "judged_expired example_cfg w2 (owned_key 0)"
    using old [OF frame(3)] by (simp add: judged_expired_owned)
  note res = loop_result [of "[''BB'']" w2 LOCAL_MACHINE root_path example_cfg, OF _ pre,
      folded root_store_def]
  have d3: "logs (cleanCerts_loop example_cfg root_store [''AA'', ''BB''] ?wD)
      = [''Coudn't delete expired cert: Access is denied.'']"
    unfolding step using res [of "''BB''"] frame(4) by (simp del: cleanCerts_loop.simps)
  have d4: "lookup_key (cleanCerts_loop example_cfg root_store [''AA'', ''BB''] ?wD)
      LOCAL_MACHINE root_path ''AA'' = Some (owned_key 0)"
    unfolding step using res [of "''AA''"]
    by (simp add: look lookup_key_def del: cleanCerts_loop.simps)
  have d5: "lookup_key (cleanCerts_loop example_cfg root_store [''AA'', ''BB''] ?wD)
      LOCAL_MACHINE root_path ''BB'' = None"
    unfolding step using res [of "''BB''"] je
    by (simp add: look lookup_key_def del: cleanCerts_loop.simps)
  show ?thesis by (intro conjI) (rule b1 b2 c1 c2 c3 c4 d1 d2 d3 d4 d5)+
qed

text \<open>
  C9.  When the sub-container opens but reading its marker value fails, with any error
  at all, the check answers ``not expired'' with no error; nothing is logged, the registry
  is unchanged, and the sweep goes on to the next name.
\<close>

theorem unreadable_marker_not_owned:
  assumes "fst (OpenKey k n w) = Inr certKey"
    and "fst (GetIntegerValue certKey cryptoAPIMagicName (snd (OpenKey k n w))) = Inl err"
  shows "fst (checkCertExpiredCryptoAPI cfg k n w) = Inr False
    \<and> logs (snd (checkCertExpiredCryptoAPI cfg k n w)) = logs w
    \<and> registry (snd (checkCertExpiredCryptoAPI cfg k n w)) = registry w
    \<and> cleanCerts_loop cfg k (n # rest) w =
        cleanCerts_loop cfg k rest (snd (checkCertExpiredCryptoAPI cfg k n w))"
  using check_unreadable [OF assms, of cfg] by simp

theorem unreadable_marker_not_owned_witness:
  "fst (OpenKey root_store ''AA''
      (example_world [(''AA'', owned_key 0)]
         [OpGetIntegerValue (CertKey LOCAL_MACHINE root_path ''AA'') cryptoAPIMagicName
            \<mapsto> ''Access is denied.''] (365 * day)))
     = Inr (CertKey LOCAL_MACHINE root_path ''AA'')
   \<and> fst (GetIntegerValue (CertKey LOCAL_MACHINE root_path ''AA'') cryptoAPIMagicName
        (snd (OpenKey root_store ''AA''
          (example_world [(''AA'', owned_key 0)]
             [OpGetIntegerValue (CertKey LOCAL_MACHINE root_path ''AA'') cryptoAPIMagicName
                \<mapsto> ''Access is denied.''] (365 * day)))))
     = Inl ''Access is denied.''
   \<and> fst (checkCertExpiredCryptoAPI example_cfg root_store ''AA''
        (example_world [(''AA'', owned_key 0)]
           [OpGetIntegerValue (CertKey LOCAL_MACHINE root_path ''AA'') cryptoAPIMagicName
              \<mapsto> ''Access is denied.''] (365 * day)))
     = Inr False
   \<and> logs (cleanCerts_loop example_cfg root_store [''AA'']
        (example_world [(''AA'', owned_key 0)]
           [OpGetIntegerValue (CertKey LOCAL_MACHINE root_path ''AA'') cryptoAPIMagicName
              \<mapsto> ''Access is denied.''] (365 * day))) = []
   \<and> fst (GetIntegerValue (CertKey LOCAL_MACHINE root_path ''AA'') cryptoAPIMagicName
        (example_world [(''AA'', text_marker_key 0)] Map.empty (365 * day)))
     = Inl ''unexpected key value type''"
proof -
  let ?w = "example_world [(''AA'', owned_key 0)]
         [OpGetIntegerValue (CertKey LOCAL_MACHINE root_path ''AA'') cryptoAPIMagicName
            \<mapsto> ''Access is denied.''] (365 * day)"
  have a: "fst (OpenKey root_store ''AA'' ?w) = Inr (CertKey LOCAL_MACHINE root_path ''AA'')"
    by (simp add: OpenKey_def root_store_def)
  have b: "fst (GetIntegerValue (CertKey LOCAL_MACHINE root_path ''AA'') cryptoAPIMagicName
        (snd (OpenKey root_store ''AA'' ?w))) = Inl ''Access is denied.''"
    by (simp add: OpenKey_world GetIntegerValue_def)
  have c: "fst (GetIntegerValue (CertKey LOCAL_MACHINE root_path ''AA'') cryptoAPIMagicName
        (example_world [(''AA'', text_marker_key 0)] Map.empty (365 * day)))
     = Inl ''unexpected key value type''"
    by (simp add: GetIntegerValue_def text_marker_key_def ErrUnexpectedType_def)
  from unreadable_marker_not_owned [OF a b, of example_cfg "[]"] a b c
  show ?thesis by (simp add: check_frame)
qed







text \<open>
  C4, as stated, fails: neither operation has a result.  With an unknown physical store
  each returns the same (empty) result as on a successful run; the failure only shows
  in the log.
\<close>

theorem no_result_for_caller:
  "fst (injectCertCryptoAPI example_digest bad_cfg example_der (example_world [] Map.empty day))
     = fst (injectCertCryptoAPI example_digest example_cfg example_der
             (example_world [] Map.empty day))
   \<and> logs (snd (injectCertCryptoAPI example_digest bad_cfg example_der
               (example_world [] Map.empty day)))
     = [''error: invalid choice for physical store, consider: current-user, system, enterprise, group-policy'']
   \<and> logs (snd (injectCertCryptoAPI example_digest example_cfg example_der
               (example_world [] Map.empty day))) = []
   \<and> fst (cleanCertsCryptoAPI bad_cfg (example_world [] Map.empty day))
     = fst (cleanCertsCryptoAPI example_cfg (example_world [] Map.empty day))
   \<and> logs (snd (cleanCertsCryptoAPI bad_cfg (example_world [] Map.empty day)))
     = [''error: invalid choice for physical store, consider: current-user, system, enterprise, group-policy'']
   \<and> logs (snd (cleanCertsCryptoAPI example_cfg (example_world [] Map.empty day))) = []"
proof -
  let ?w = "example_world [] Map.empty day"
  have 1: "logs (snd (injectCertCryptoAPI example_digest bad_cfg example_der ?w))
     = [''error: invalid choice for physical store, consider: current-user, system, enterprise, group-policy'']"
    by (simp add: injectCertCryptoAPI_def bad_scope Sprintf_one)
  have len: "length example_der \<le> 4294967295" by (simp add: example_der_def)
  have reg: "registry ?w (Base system_scope, Key example_cfg system_scope) = Some []" by simp
  have "logs (snd (injectCertCryptoAPI example_digest example_cfg example_der ?w)) = logs ?w"
    by (subst inject_success [where sha1_Sum = example_digest and der = example_der,
          OF example_scope len reg]) simp_all
  then have 2: "logs (snd (injectCertCryptoAPI example_digest example_cfg example_der ?w)) = []"
    by simp
  have 3: "logs (snd (cleanCertsCryptoAPI bad_cfg ?w))
     = [''error: invalid choice for physical store, consider: current-user, system, enterprise, group-policy'']"
    by (simp add: cleanCertsCryptoAPI_def bad_scope Sprintf_one)
  have 4: "logs (snd (cleanCertsCryptoAPI example_cfg ?w)) = []"
    by (subst example_sweep [OF example_scope example_scope_Key(1)]) simp_all
  show ?thesis using 1 2 3 4 by simp
qed

text \<open>
  C4, amended.  On an unknown physical store, on a store that cannot be opened and (for
  the sweep) on a store whose sub-containers cannot be enumerated, the operation stops
  at once, writes one line naming the failure to the error log and leaves the registry
  as it was; it hands no result to its caller.
\<close>

theorem toplevel_errors_logged:
  "(cryptoAPINameToStore (cryptoAPIFlagPhysicalStoreName cfg) = Inl err \<longrightarrow>
      injectCertCryptoAPI sha1_Sum cfg der w = ((), w\<lparr>logs := logs w @ [''error: '' @ err]\<rparr>)
      \<and> cleanCertsCryptoAPI cfg w = ((), w\<lparr>logs := logs w @ [''error: '' @ err]\<rparr>))
   \<and> (cryptoAPINameToStore (cryptoAPIFlagPhysicalStoreName cfg) = Inr store
        \<and> fst (OpenKey (HiveKey (Base store)) (Key cfg store) w) = Inl err \<longrightarrow>
      cleanCertsCryptoAPI cfg w =
        ((), w\<lparr>trace := trace w @ [OpOpenKey (HiveKey (Base store)) (Key cfg store)],
               logs := logs w @ [''Couldn't open cert store: '' @ err]\<rparr>)
      \<and> (length der \<le> 4294967295 \<longrightarrow>
           injectCertCryptoAPI sha1_Sum cfg der w =
             ((), w\<lparr>trace := trace w @ [OpOpenKey (HiveKey (Base store)) (Key cfg store)],
                    logs := logs w @ [''Couldn't open cert store: '' @ err]\<rparr>)))
   \<and> (cryptoAPINameToStore (cryptoAPIFlagPhysicalStoreName cfg) = Inr store
        \<and> fst (OpenKey (HiveKey (Base store)) (Key cfg store) w) = Inr certStoreKey
        \<and> fst (ReadSubKeyNames certStoreKey (snd (OpenKey (HiveKey (Base store)) (Key cfg store) w)))
            = Inl err \<longrightarrow>
      cleanCertsCryptoAPI cfg w =
        ((), w\<lparr>trace := trace w @ [OpOpenKey (HiveKey (Base store)) (Key cfg store),
                                  OpReadSubKeyNames certStoreKey],
               logs := logs w @ [''Couldn't list certs in cert store: '' @ err]\<rparr>))"
proof (intro conjI impI)
  assume "cryptoAPINameToStore (cryptoAPIFlagPhysicalStoreName cfg) = Inl err"
  then show "injectCertCryptoAPI sha1_Sum cfg der w = ((), w\<lparr>logs := logs w @ [''error: '' @ err]\<rparr>)"
    and "cleanCertsCryptoAPI cfg w = ((), w\<lparr>logs := logs w @ [''error: '' @ err]\<rparr>)"
    by (simp_all add: injectCertCryptoAPI_def cleanCertsCryptoAPI_def Errorf_def Sprintf_one)
next
  assume a: "cryptoAPINameToStore (cryptoAPIFlagPhysicalStoreName cfg) = Inr store
        \<and> fst (OpenKey (HiveKey (Base store)) (Key cfg store) w) = Inl err"
  then have o: "OpenKey (HiveKey (Base store)) (Key cfg store) w =
      (Inl err, called (OpOpenKey (HiveKey (Base store)) (Key cfg store)) w)"
    using OpenKey_world [of "HiveKey (Base store)" "Key cfg store" w]
    by (cases "OpenKey (HiveKey (Base store)) (Key cfg store) w") simp
  show "cleanCertsCryptoAPI cfg w =
        ((), w\<lparr>trace := trace w @ [OpOpenKey (HiveKey (Base store)) (Key cfg store)],
               logs := logs w @ [''Couldn't open cert store: '' @ err]\<rparr>)"
    using a o by (simp add: cleanCertsCryptoAPI_def Errorf_def called_def Sprintf_one)
  show "injectCertCryptoAPI sha1_Sum cfg der w =
             ((), w\<lparr>trace := trace w @ [OpOpenKey (HiveKey (Base store)) (Key cfg store)],
                    logs := logs w @ [''Couldn't open cert store: '' @ err]\<rparr>)"
    if "length der \<le> 4294967295"
    using a o that by (simp add: injectCertCryptoAPI_def Errorf_def called_def Sprintf_one)
next
  assume a: "cryptoAPINameToStore (cryptoAPIFlagPhysicalStoreName cfg) = Inr store
        \<and> fst (OpenKey (HiveKey (Base store)) (Key cfg store) w) = Inr certStoreKey
        \<and> fst (ReadSubKeyNames certStoreKey (snd (OpenKey (HiveKey (Base store)) (Key cfg store) w)))
            = Inl err"
  let ?w1 = "called (OpOpenKey (HiveKey (Base store)) (Key cfg store)) w"
  from a have o: "OpenKey (HiveKey (Base store)) (Key cfg store) w = (Inr certStoreKey, ?w1)"
    using OpenKey_world [of "HiveKey (Base store)" "Key cfg store" w]
    by (cases "OpenKey (HiveKey (Base store)) (Key cfg store) w") simp
  with a have "fst (ReadSubKeyNames certStoreKey ?w1) = Inl err" by simp
  then have r: "ReadSubKeyNames certStoreKey ?w1 =
      (Inl err, called (OpReadSubKeyNames certStoreKey) ?w1)"
    using ReadSubKeyNames_world [of certStoreKey ?w1]
    by (cases "ReadSubKeyNames certStoreKey ?w1") simp
  show "cleanCertsCryptoAPI cfg w =
        ((), w\<lparr>trace := trace w @ [OpOpenKey (HiveKey (Base store)) (Key cfg store),
                                  OpReadSubKeyNames certStoreKey],
               logs := logs w @ [''Couldn't list certs in cert store: '' @ err]\<rparr>)"
    using a o r by (simp add: cleanCertsCryptoAPI_def Errorf_def called_def Sprintf_one)
qed

theorem toplevel_errors_logged_witness:
  "cryptoAPINameToStore (cryptoAPIFlagPhysicalStoreName bad_cfg) =
     Inl ''invalid choice for physical store, consider: current-user, system, enterprise, group-policy''
   \<and> cleanCertsCryptoAPI bad_cfg (example_world [] Map.empty day) =
       ((), (example_world [] Map.empty day)
          \<lparr>logs := [''error: invalid choice for physical store, consider: current-user, system, enterprise, group-policy'']\<rparr>)
   \<and> cryptoAPINameToStore (cryptoAPIFlagPhysicalStoreName example_cfg) = Inr system_scope
   \<and> fst (OpenKey (HiveKey (Base system_scope)) (Key example_cfg system_scope)
          (example_world [] [OpOpenKey (HiveKey LOCAL_MACHINE) root_path \<mapsto> ''Access is denied.''] day))
       = Inl ''Access is denied.''
   \<and> length example_der \<le> 4294967295
   \<and> injectCertCryptoAPI example_digest example_cfg example_der
        (example_world [] [OpOpenKey (HiveKey LOCAL_MACHINE) root_path \<mapsto> ''Access is denied.''] day) =
       ((), (example_world [] [OpOpenKey (HiveKey LOCAL_MACHINE) root_path \<mapsto> ''Access is denied.''] day)
          \<lparr>trace := [OpOpenKey (HiveKey LOCAL_MACHINE) root_path],
           logs := [''Couldn't open cert store: Access is denied.'']\<rparr>)
   \<and> fst (OpenKey (HiveKey (Base system_scope)) (Key example_cfg system_scope)
          (example_world [] [OpReadSubKeyNames root_store \<mapsto> ''Access is denied.''] day))
       = Inr root_store
   \<and> fst (ReadSubKeyNames root_store
          (snd (OpenKey (HiveKey (Base system_scope)) (Key example_cfg system_scope)
             (example_world [] [OpReadSubKeyNames root_store \<mapsto> ''Access is denied.''] day))))
       = Inl ''Access is denied.''
   \<and> cleanCertsCryptoAPI example_cfg
        (example_world [] [OpReadSubKeyNames root_store \<mapsto> ''Access is denied.''] day) =
       ((), (example_world [] [OpReadSubKeyNames root_store \<mapsto> ''Access is denied.''] day)
          \<lparr>trace := [OpOpenKey (HiveKey LOCAL_MACHINE) root_path, OpReadSubKeyNames root_store],
           logs := [''Couldn't list certs in cert store: Access is denied.'']\<rparr>)"
proof -
  let ?w0 = "example_world [] Map.empty day"
  let ?w1 = "example_world [] [OpOpenKey (HiveKey LOCAL_MACHINE) root_path \<mapsto> ''Access is denied.''] day"
  let ?w2 = "example_world [] [OpReadSubKeyNames root_store \<mapsto> ''Access is denied.''] day"
  have len: "length example_der \<le> 4294967295" by (simp add: example_der_def)
  have o1: "fst (OpenKey (HiveKey (Base system_scope)) (Key example_cfg system_scope) ?w1)
       = Inl ''Access is denied.''"
    by (simp add: OpenKey_def)
  have o2: "fst (OpenKey (HiveKey (Base system_scope)) (Key example_cfg system_scope) ?w2)
       = Inr root_store"
    by (simp add: OpenKey_def root_store_def)
  have r2: "fst (ReadSubKeyNames root_store
          (snd (OpenKey (HiveKey (Base system_scope)) (Key example_cfg system_scope) ?w2)))
       = Inl ''Access is denied.''"
    by (simp add: OpenKey_world ReadSubKeyNames_def)
  have A: "cleanCertsCryptoAPI bad_cfg ?w0 =
       ((), ?w0\<lparr>logs := [''error: invalid choice for physical store, consider: current-user, system, enterprise, group-policy'']\<rparr>)"
    using toplevel_errors_logged [of bad_cfg _ example_digest example_der ?w0, THEN conjunct1,
        rule_format, OF bad_scope]
    by simp
  have B: "injectCertCryptoAPI example_digest example_cfg example_der ?w1 =
       ((), ?w1\<lparr>trace := [OpOpenKey (HiveKey LOCAL_MACHINE) root_path],
           logs := [''Couldn't open cert store: Access is denied.'']\<rparr>)"
    using toplevel_errors_logged [of example_cfg "''Access is denied.''" example_digest
        example_der ?w1 system_scope, THEN conjunct2, THEN conjunct1, rule_format,
        OF conjI [OF example_scope o1]] len
    by simp
  have C: "cleanCertsCryptoAPI example_cfg ?w2 =
       ((), ?w2\<lparr>trace := [OpOpenKey (HiveKey LOCAL_MACHINE) root_path, OpReadSubKeyNames root_store],
           logs := [''Couldn't list certs in cert store: Access is denied.'']\<rparr>)"
    using toplevel_errors_logged [of example_cfg "''Access is denied.''" example_digest
        example_der ?w2 system_scope root_store, THEN conjunct2, THEN conjunct2, rule_format,
        OF conjI [OF example_scope conjI [OF o2 r2]]]
    by simp
  show ?thesis by (intro conjI) (rule bad_scope A example_scope o1 len B o2 r2 C)+
qed

end
